theory Spec2Isabelle
  imports Complex_Main
begin

section \<open>JavaScript values used by the diff engine\<close>

text \<open>
  A JavaScript string is a sequence of UTF-16 code units. A code unit is modelled by its
  number, a string by the list of its code units, so that \<open>length\<close> is the
  \<^verbatim>\<open>.length\<close> of the source and \<open>=\<close> is \<^verbatim>\<open>===\<close> on strings.
  \<open>js\<close> turns an ASCII literal into such a string.
\<close>

type_synonym jschar = nat
type_synonym jsstring = "jschar list"

definition js :: "string \<Rightarrow> jsstring" where
  "js s = map of_char s"

text \<open>
  The character classes of the regular expressions in \<^verbatim>\<open>core.ts\<close>:
  \<^verbatim>\<open>\s\<close> (white space and line terminators, which is also what \<^verbatim>\<open>trim\<close> strips),
  \<^verbatim>\<open>\w\<close> (\<^verbatim>\<open>[A-Za-z0-9_]\<close>) and \<^verbatim>\<open>[.!?]\<close>.
\<close>

definition isSpace :: "jschar \<Rightarrow> bool" where
  "isSpace c = (c = 9 \<or> c = 10 \<or> c = 11 \<or> c = 12 \<or> c = 13 \<or> c = 32 \<or> c = 160
     \<or> c = 5760 \<or> (8192 \<le> c \<and> c \<le> 8202) \<or> c = 8232 \<or> c = 8233 \<or> c = 8239
     \<or> c = 8287 \<or> c = 12288 \<or> c = 65279)"

definition isWordChar :: "jschar \<Rightarrow> bool" where
  "isWordChar c = ((48 \<le> c \<and> c \<le> 57) \<or> (65 \<le> c \<and> c \<le> 90) \<or> c = 95
     \<or> (97 \<le> c \<and> c \<le> 122))"

definition isTerminal :: "jschar \<Rightarrow> bool" where
  "isTerminal c = (c = 46 \<or> c = 33 \<or> c = 63)"

definition trim :: "jsstring \<Rightarrow> jsstring" where
  "trim s = rev (dropWhile isSpace (rev (dropWhile isSpace s)))"

text \<open>\<^verbatim>\<open>lines.join(sep)\<close>\<close>

fun join :: "jsstring \<Rightarrow> jsstring list \<Rightarrow> jsstring" where
  "join sep [] = []"
| "join sep [x] = x"
| "join sep (x # y # ys) = x @ sep @ join sep (y # ys)"

text \<open>
  \<^verbatim>\<open>new Set(xs)\<close>, kept as the list of its elements in insertion order: an element
  already present is not added again.
\<close>

definition set_add :: "'a list \<Rightarrow> 'a \<Rightarrow> 'a list" where
  "set_add s x = (if x \<in> set s then s else s @ [x])"

definition new_Set :: "'a list \<Rightarrow> 'a list" where
  "new_Set xs = foldl set_add [] xs"

text \<open>
  What the engine takes from the JavaScript runtime and the model does not fix:
  \<^verbatim>\<open>String.prototype.toLowerCase\<close> (Unicode case mapping) and the arithmetic of
  Numbers (IEEE doubles). They are the fields of a record that every function below receives;
  \<open>'n\<close> is the type of Numbers. Theorems hold for every such record.
  \<open>lit q\<close> is the Number that the literal or integer \<open>q\<close> denotes.
\<close>

record 'n host =
  toLowerCase :: "jsstring \<Rightarrow> jsstring"
  lit :: "rat \<Rightarrow> 'n"
  n_div :: "'n \<Rightarrow> 'n \<Rightarrow> 'n"
  n_mul :: "'n \<Rightarrow> 'n \<Rightarrow> 'n"
  n_add :: "'n \<Rightarrow> 'n \<Rightarrow> 'n"
  n_min :: "'n \<Rightarrow> 'n \<Rightarrow> 'n"
  n_gt :: "'n \<Rightarrow> 'n \<Rightarrow> bool"
  n_truthy :: "'n \<Rightarrow> bool"
  n_round_str :: "'n \<Rightarrow> jsstring"

section \<open>Regular expressions: split, replace, match\<close>

text \<open>
  \<^verbatim>\<open>String.prototype.split\<close> with a regular expression, as ECMAScript defines it. A
  matcher says, for the text that starts at position \<open>q\<close>, how long the match at \<open>q\<close>
  is (none of the expressions of \<^verbatim>\<open>tokenize\<close> looks behind \<open>q\<close>). \<open>cur\<close> is the text
  between \<open>p\<close> and \<open>q\<close>; \<open>cap\<close> says that the expression is one capturing group, whose
  text is spliced into the result.
\<close>

type_synonym matcher = "jsstring \<Rightarrow> nat option"

function split_loop :: "matcher \<Rightarrow> bool \<Rightarrow> jsstring \<Rightarrow> jsstring \<Rightarrow> jsstring list" where
  "split_loop m cap cur [] = [cur]"
| "split_loop m cap cur (c # cs) =
     (case m (c # cs) of
        None \<Rightarrow> split_loop m cap (cur @ [c]) cs
      | Some len \<Rightarrow>
          if len = 0 \<and> cur = [] then split_loop m cap (cur @ [c]) cs
          else cur # (if cap then [take len (c # cs)] else [])
                 @ split_loop m cap [] (drop len (c # cs)))"
  by pat_completeness auto
termination
  by (relation "measure (\<lambda>(m, cap, cur, rest). 2 * length rest + (if cur = [] then 0 else 1))")
     auto

definition js_split :: "matcher \<Rightarrow> bool \<Rightarrow> jsstring \<Rightarrow> jsstring list" where
  "js_split m cap s =
     (if s = [] then (case m [] of None \<Rightarrow> [s] | Some len \<Rightarrow> [])
      else split_loop m cap [] s)"

text \<open>\<^verbatim>\<open>/\r?\n/\<close>\<close>

definition newline_re :: matcher where
  "newline_re s =
     (if take 2 s = [13, 10] then Some 2
      else if take 1 s = [10] then Some 1
      else None)"

text \<open>\<^verbatim>\<open>/(\s+)/\<close>: the longest run of white space at \<open>q\<close>.\<close>

definition spaces_re :: matcher where
  "spaces_re s = (let n = length (takeWhile isSpace s) in if n > 0 then Some n else None)"

text \<open>
  \<^verbatim>\<open>/([.!?]+[\s\n]+)/\<close>: the longest run of terminal punctuation at \<open>q\<close>, then the
  longest run of white space; both runs are non-empty. The classes are disjoint, so
  backtracking finds no other match.
\<close>

definition sentence_end_re :: matcher where
  "sentence_end_re s =
     (let p = length (takeWhile isTerminal s);
          w = length (takeWhile isSpace (drop p s))
      in if p > 0 \<and> w > 0 then Some (p + w) else None)"

text \<open>
  \<^verbatim>\<open>/\n\s*\n/\<close>: a line feed, then white space up to the last line feed of the white
  space run that follows (\<^verbatim>\<open>\s*\<close> is greedy and gives characters back until a line
  feed follows).
\<close>

definition blank_line_re :: matcher where
  "blank_line_re s =
     (case s of
        [] \<Rightarrow> None
      | c # cs \<Rightarrow>
          if c \<noteq> 10 then None
          else let w = takeWhile isSpace cs in
            if 10 \<in> set w
            then Some (1 + (length w - length (takeWhile (\<lambda>x. x \<noteq> 10) (rev w))))
            else None)"

text \<open>\<^verbatim>\<open>text.replace(/\s+/g, ' ')\<close>\<close>

function replace_spaces :: "jsstring \<Rightarrow> jsstring" where
  "replace_spaces [] = []"
| "replace_spaces (c # cs) =
     (if isSpace c then 32 # replace_spaces (dropWhile isSpace cs)
      else c # replace_spaces cs)"
  by pat_completeness auto
termination
  by (relation "measure length") (auto simp: less_Suc_eq_le length_dropWhile_le)

text \<open>\<^verbatim>\<open>text.match(/\b\w+\b/g) || []\<close>: the maximal runs of word characters, in order.\<close>

function match_words :: "jsstring \<Rightarrow> jsstring list" where
  "match_words [] = []"
| "match_words (c # cs) =
     (if isWordChar c then (c # takeWhile isWordChar cs) # match_words (dropWhile isWordChar cs)
      else match_words cs)"
  by pat_completeness auto
termination
  by (relation "measure length") (auto simp: less_Suc_eq_le length_dropWhile_le)

section \<open>Types of \<^verbatim>\<open>core.ts\<close>\<close>

datatype change_type = Added | Removed | Modified | Unchanged

record keyWords_t =
  kw_added :: "jsstring list"
  kw_removed :: "jsstring list"

text \<open>\<^verbatim>\<open>DiffChange\<close>; an optional field that is absent is \<open>None\<close>.\<close>

record 'n DiffChange =
  ctype :: change_type
  original :: "jsstring option"
  modified :: "jsstring option"
  originalLine :: "nat option"
  modifiedLine :: "nat option"
  similarity :: "'n option"
  explanation :: "jsstring option"
  keyWords :: "keyWords_t option"

record stats_t =
  n_added :: nat
  n_removed :: nat
  n_modified :: nat
  n_unchanged :: nat

record 'n DiffResult =
  changes :: "'n DiffChange list"
  stats :: stats_t

datatype granularity_t = Line | Word | Character | Sentence | Paragraph

record 'n DiffOptions =
  granularity :: "granularity_t option"
  ignoreWhitespace :: "bool option"
  ignoreCase :: "bool option"
  semanticAnalysis :: "bool option"
  similarityThreshold :: "'n option"

text \<open>Truthiness of an optional boolean: \<^verbatim>\<open>undefined\<close> and \<^verbatim>\<open>false\<close> are falsy.\<close>

fun truthy :: "bool option \<Rightarrow> bool" where
  "truthy (Some b) = b"
| "truthy None = False"

section \<open>Normalizer and tokenizer\<close>

definition normalize :: "'n host \<Rightarrow> jsstring \<Rightarrow> 'n DiffOptions \<Rightarrow> jsstring" where
  "normalize E text options =
     (let normalized = text;
          normalized = (if truthy (ignoreWhitespace options)
                        then trim (replace_spaces normalized) else normalized);
          normalized = (if truthy (ignoreCase options)
                        then toLowerCase E normalized else normalized)
      in normalized)"

text \<open>
  \<^verbatim>\<open>tokenize\<close>. The \<^verbatim>\<open>default\<close> branch of the source's switch is not reachable with a
  granularity of the declared type.
\<close>

fun tokenize :: "jsstring \<Rightarrow> granularity_t \<Rightarrow> jsstring list" where
  "tokenize text Line = js_split newline_re False text"
| "tokenize text Word = filter (\<lambda>token. length token > 0) (js_split spaces_re True text)"
| "tokenize text Character = map (\<lambda>c. [c]) text"
| "tokenize text Sentence =
     filter (\<lambda>s. length (trim s) > 0) (js_split sentence_end_re True text)"
| "tokenize text Paragraph =
     filter (\<lambda>p. length (trim p) > 0) (js_split blank_line_re False text)"

section \<open>Semantic scorer\<close>

definition computeSemanticSimilarity :: "'n host \<Rightarrow> jsstring \<Rightarrow> jsstring \<Rightarrow> 'n" where
  "computeSemanticSimilarity E text1 text2 =
     (let words1 = new_Set (match_words (toLowerCase E text1));
          words2 = new_Set (match_words (toLowerCase E text2))
      in if length words1 = 0 \<and> length words2 = 0 then lit E 1
         else if length words1 = 0 \<or> length words2 = 0 then lit E 0
         else
           let intersection = new_Set (filter (\<lambda>w. w \<in> set words2) words1);
               union = new_Set (words1 @ words2);
               jaccard = n_div E (lit E (of_nat (length intersection)))
                                 (lit E (of_nat (length union)));
               lengthRatio = n_div E (lit E (of_nat (min (length text1) (length text2))))
                                     (lit E (of_nat (max (length text1) (length text2))))
           in n_add E (n_mul E jaccard (lit E (7 / 10))) (n_mul E lengthRatio (lit E (3 / 10))))"

section \<open>Aligner: longest common subsequence\<close>

text \<open>The table \<^verbatim>\<open>dp\<close> after the two nested \<^verbatim>\<open>for\<close> loops of \<^verbatim>\<open>lcs\<close>.\<close>

definition lcs_table :: "'a list \<Rightarrow> 'a list \<Rightarrow> nat list list" where
  "lcs_table arr1 arr2 =
     (let m = length arr1; n = length arr2;
          dp0 = replicate (m + 1) (replicate (n + 1) 0)
      in foldl (\<lambda>dp i. foldl (\<lambda>dp j.
            if arr1 ! (i - 1) = arr2 ! (j - 1)
            then dp[i := (dp ! i)[j := dp ! (i - 1) ! (j - 1) + 1]]
            else dp[i := (dp ! i)[j := max (dp ! (i - 1) ! j) (dp ! i ! (j - 1))]])
          dp [1..<n + 1]) dp0 [1..<m + 1])"

text \<open>
  One turn of the backtracking \<^verbatim>\<open>while\<close> loop, on the loop's variables
  \<open>(i, j, result)\<close>; \<^verbatim>\<open>result.unshift(x)\<close> puts \<open>x\<close> in front.
\<close>

definition backtrack_step ::
  "'a list \<Rightarrow> 'a list \<Rightarrow> nat list list \<Rightarrow> nat \<times> nat \<times> 'a list \<Rightarrow> nat \<times> nat \<times> 'a list" where
  "backtrack_step arr1 arr2 dp st =
     (case st of (i, j, result) \<Rightarrow>
        if arr1 ! (i - 1) = arr2 ! (j - 1) then (i - 1, j - 1, arr1 ! (i - 1) # result)
        else if dp ! (i - 1) ! j > dp ! i ! (j - 1) then (i - 1, j, result)
        else (i, j - 1, result))"

function backtrack ::
  "'a list \<Rightarrow> 'a list \<Rightarrow> nat list list \<Rightarrow> nat \<times> nat \<times> 'a list \<Rightarrow> 'a list" where
  "backtrack arr1 arr2 dp (i, j, result) =
     (if i > 0 \<and> j > 0 then backtrack arr1 arr2 dp (backtrack_step arr1 arr2 dp (i, j, result))
      else result)"
  by pat_completeness auto
termination
  by (relation "measure (\<lambda>(arr1, arr2, dp, i, j, result). i + j)")
     (auto simp: backtrack_step_def split: if_splits)

definition lcs :: "'a list \<Rightarrow> 'a list \<Rightarrow> 'a list" where
  "lcs arr1 arr2 =
     (let m = length arr1; n = length arr2; dp = lcs_table arr1 arr2
      in backtrack arr1 arr2 dp (m, n, []))"

section \<open>Classifier: \<^verbatim>\<open>diff\<close>\<close>

text \<open>\<^verbatim>\<open>granularity === 'line' ? n : undefined\<close> and the matching conditional increment.\<close>

definition line_no :: "granularity_t \<Rightarrow> nat \<Rightarrow> nat option" where
  "line_no g n = (if g = Line then Some n else None)"

definition next_line :: "granularity_t \<Rightarrow> nat \<Rightarrow> nat" where
  "next_line g n = (if g = Line then n + 1 else n)"

text \<open>The words of more than three characters of a lower-cased text, as a Set.\<close>

definition long_words :: "'n host \<Rightarrow> jsstring \<Rightarrow> jsstring list" where
  "long_words E text =
     new_Set (filter (\<lambda>w. length w > 3) (match_words (toLowerCase E text)))"

text \<open>\<^verbatim>\<open>options.similarityThreshold || 0.5\<close>\<close>

definition threshold_of :: "'n host \<Rightarrow> 'n DiffOptions \<Rightarrow> 'n" where
  "threshold_of E options =
     (case similarityThreshold options of
        None \<Rightarrow> lit E (1 / 2)
      | Some t \<Rightarrow> if n_truthy E t then t else lit E (1 / 2))"

text \<open>
  The two template strings of the explanation; code unit 34 is the double quote, and
  \<open>n_round_str E x\<close> is \<^verbatim>\<open>Math.round(x)\<close> as the template prints it.
\<close>

definition reworded_text :: "'n host \<Rightarrow> 'n \<Rightarrow> jsstring list \<Rightarrow> jsstring list \<Rightarrow> jsstring" where
  "reworded_text E sim addedWords removedWords =
     trim (js ''Reworded with '' @ n_round_str E (n_mul E sim (lit E 100))
       @ js ''% similarity. Key changes: ''
       @ (if length addedWords > 0 then js ''added '' @ [34] @ addedWords ! 0 @ [34] else [])
       @ js '' ''
       @ (if length removedWords > 0 then js ''removed '' @ [34] @ removedWords ! 0 @ [34]
          else []))"

definition significantly_text :: "jsstring list \<Rightarrow> jsstring" where
  "significantly_text addedWords =
     js ''Significantly modified. New focus: '' @ join (js '', '') (take 2 addedWords)"

text \<open>The \<^verbatim>\<open>modified\<close> record of the last branch, with the semantic analysis when it is on.\<close>

definition modified_change ::
  "'n host \<Rightarrow> 'n DiffOptions \<Rightarrow> granularity_t \<Rightarrow> jsstring \<Rightarrow> jsstring \<Rightarrow> nat \<Rightarrow> nat
     \<Rightarrow> 'n DiffChange" where
  "modified_change E options g origText modText oLine mLine =
     (let sim = (if truthy (semanticAnalysis options)
                 then Some (computeSemanticSimilarity E origText modText) else None);
          change = \<lparr>ctype = Modified, original = Some origText, modified = Some modText,
                    originalLine = line_no g oLine, modifiedLine = line_no g mLine,
                    similarity = None, explanation = None, keyWords = None\<rparr>
      in case sim of
           None \<Rightarrow> change
         | Some v \<Rightarrow>
             if truthy (semanticAnalysis options) then
               (let origWords = long_words E origText;
                    modWords = long_words E modText;
                    addedWords = filter (\<lambda>w. w \<notin> set origWords) modWords;
                    removedWords = filter (\<lambda>w. w \<notin> set modWords) origWords
                in change\<lparr>similarity := Some v,
                     keyWords := Some \<lparr>kw_added = take 5 addedWords,
                                        kw_removed = take 5 removedWords\<rparr>,
                     explanation := Some (if n_gt E v (threshold_of E options)
                                          then reworded_text E v addedWords removedWords
                                          else significantly_text addedWords)\<rparr>)
             else change)"

text \<open>The variables of the classifying \<^verbatim>\<open>while\<close> loop.\<close>

record 'n walk =
  pos_i :: nat
  pos_j :: nat
  pos_k :: nat
  line_o :: nat
  line_m :: nat
  acc :: "'n DiffChange list"

definition unchanged_change :: "granularity_t \<Rightarrow> jsstring \<Rightarrow> jsstring \<Rightarrow> nat \<Rightarrow> nat \<Rightarrow> 'n DiffChange" where
  "unchanged_change g t1 t2 oLine mLine =
     \<lparr>ctype = Unchanged, original = Some t1, modified = Some t2,
      originalLine = line_no g oLine, modifiedLine = line_no g mLine,
      similarity = None, explanation = None, keyWords = None\<rparr>"

definition added_change :: "granularity_t \<Rightarrow> jsstring \<Rightarrow> nat \<Rightarrow> 'n DiffChange" where
  "added_change g t2 mLine =
     \<lparr>ctype = Added, original = None, modified = Some t2,
      originalLine = None, modifiedLine = line_no g mLine,
      similarity = None, explanation = None, keyWords = None\<rparr>"

definition removed_change :: "granularity_t \<Rightarrow> jsstring \<Rightarrow> nat \<Rightarrow> 'n DiffChange" where
  "removed_change g t1 oLine =
     \<lparr>ctype = Removed, original = Some t1, modified = None,
      originalLine = line_no g oLine, modifiedLine = None,
      similarity = None, explanation = None, keyWords = None\<rparr>"

text \<open>One turn of the loop: the branches in the order of the source.\<close>

definition diff_step ::
  "'n host \<Rightarrow> 'n DiffOptions \<Rightarrow> granularity_t \<Rightarrow> jsstring list \<Rightarrow> jsstring list
     \<Rightarrow> jsstring list \<Rightarrow> jsstring list \<Rightarrow> jsstring list \<Rightarrow> 'n walk \<Rightarrow> 'n walk" where
  "diff_step E options g tokens1 tokens2 normalized1 normalized2 common s =
     (let i = pos_i s; j = pos_j s; k = pos_k s in
      if i < length tokens1 \<and> j < length tokens2 then
        (let norm1 = normalized1 ! i; norm2 = normalized2 ! j in
         if norm1 = norm2 \<and> k < length common \<and> norm1 = common ! k then
           s\<lparr>acc := acc s @ [unchanged_change g (tokens1 ! i) (tokens2 ! j) (line_o s) (line_m s)],
             pos_i := i + 1, pos_j := j + 1, pos_k := k + 1,
             line_o := next_line g (line_o s), line_m := next_line g (line_m s)\<rparr>
         else if k < length common \<and> norm1 = common ! k then
           s\<lparr>acc := acc s @ [added_change g (tokens2 ! j) (line_m s)],
             pos_j := j + 1, line_m := next_line g (line_m s)\<rparr>
         else if k < length common \<and> norm2 = common ! k then
           s\<lparr>acc := acc s @ [removed_change g (tokens1 ! i) (line_o s)],
             pos_i := i + 1, line_o := next_line g (line_o s)\<rparr>
         else
           s\<lparr>acc := acc s @ [modified_change E options g (tokens1 ! i) (tokens2 ! j)
                                (line_o s) (line_m s)],
             pos_i := i + 1, pos_j := j + 1,
             line_o := next_line g (line_o s), line_m := next_line g (line_m s)\<rparr>)
      else if i < length tokens1 then
        s\<lparr>acc := acc s @ [removed_change g (tokens1 ! i) (line_o s)],
          pos_i := i + 1, line_o := next_line g (line_o s)\<rparr>
      else if j < length tokens2 then
        s\<lparr>acc := acc s @ [added_change g (tokens2 ! j) (line_m s)],
          pos_j := j + 1, line_m := next_line g (line_m s)\<rparr>
      else s)"

function diff_loop ::
  "'n host \<Rightarrow> 'n DiffOptions \<Rightarrow> granularity_t \<Rightarrow> jsstring list \<Rightarrow> jsstring list
     \<Rightarrow> jsstring list \<Rightarrow> jsstring list \<Rightarrow> jsstring list \<Rightarrow> 'n walk \<Rightarrow> 'n walk" where
  "diff_loop E options g tokens1 tokens2 normalized1 normalized2 common s =
     (if pos_i s < length tokens1 \<or> pos_j s < length tokens2
      then diff_loop E options g tokens1 tokens2 normalized1 normalized2 common
             (diff_step E options g tokens1 tokens2 normalized1 normalized2 common s)
      else s)"
  by pat_completeness auto
termination
  by (relation "measure (\<lambda>(E, options, g, tokens1, tokens2, normalized1, normalized2, common, s).
        (length tokens1 - pos_i s) + (length tokens2 - pos_j s))")
     (auto simp: diff_step_def Let_def)

text \<open>\<^verbatim>\<open>changes.filter(c => c.type === t).length\<close>\<close>

definition count_type :: "change_type \<Rightarrow> 'n DiffChange list \<Rightarrow> nat" where
  "count_type t cs = length (filter (\<lambda>c. ctype c = t) cs)"

definition stats_of :: "'n DiffChange list \<Rightarrow> stats_t" where
  "stats_of cs = \<lparr>n_added = count_type Added cs, n_removed = count_type Removed cs,
                  n_modified = count_type Modified cs, n_unchanged = count_type Unchanged cs\<rparr>"

definition diff :: "'n host \<Rightarrow> jsstring \<Rightarrow> jsstring \<Rightarrow> 'n DiffOptions \<Rightarrow> 'n DiffResult" where
  "diff E originalText modifiedText options =
     (let g = (case granularity options of None \<Rightarrow> Line | Some v \<Rightarrow> v);
          iw = (case ignoreWhitespace options of None \<Rightarrow> False | Some v \<Rightarrow> v);
          ic = (case ignoreCase options of None \<Rightarrow> False | Some v \<Rightarrow> v);
          opts = \<lparr>granularity = Some g, ignoreWhitespace = Some iw, ignoreCase = Some ic,
                  semanticAnalysis = None, similarityThreshold = None\<rparr>;
          tokens1 = tokenize originalText g;
          tokens2 = tokenize modifiedText g;
          normalized1 = map (\<lambda>t. normalize E t opts) tokens1;
          normalized2 = map (\<lambda>t. normalize E t opts) tokens2;
          common = lcs normalized1 normalized2;
          final = diff_loop E options g tokens1 tokens2 normalized1 normalized2 common
                    \<lparr>pos_i = 0, pos_j = 0, pos_k = 0, line_o = 1, line_m = 1, acc = []\<rparr>
      in \<lparr>changes = acc final, stats = stats_of (acc final)\<rparr>)"

section \<open>Merge generator\<close>

datatype decision = Accept | Reject | Keep

text \<open>\<^verbatim>\<open>x || ''\<close> on an optional string.\<close>

fun or_empty :: "jsstring option \<Rightarrow> jsstring" where
  "or_empty (Some s) = s"
| "or_empty None = []"

text \<open>The callback of \<^verbatim>\<open>changes.forEach\<close>: \<open>lines\<close> after the entry at \<open>index\<close>.\<close>

definition merge_entry ::
  "(nat \<rightharpoonup> decision) \<Rightarrow> jsstring list \<Rightarrow> nat \<times> 'n DiffChange \<Rightarrow> jsstring list" where
  "merge_entry decisions lines entry =
     (case entry of (index, change) \<Rightarrow>
        (let d = (case decisions index of None \<Rightarrow> Keep | Some v \<Rightarrow> v) in
         (case ctype change of
            Added \<Rightarrow>
              (if d = Accept \<or> d = Keep then lines @ [or_empty (modified change)] else lines)
          | Removed \<Rightarrow>
              (if d = Reject \<or> d = Keep then lines @ [or_empty (original change)] else lines)
          | Modified \<Rightarrow>
              (if d = Accept then lines @ [or_empty (modified change)]
               else if d = Reject then lines @ [or_empty (original change)]
               else lines @ [or_empty (modified change)])
          | Unchanged \<Rightarrow> lines @ [or_empty (original change)])))"

definition generateMergedText :: "'n DiffChange list \<Rightarrow> (nat \<rightharpoonup> decision) \<Rightarrow> jsstring" where
  "generateMergedText cs decisions =
     join [10] (foldl (merge_entry decisions) [] (enumerate 0 cs))"

section \<open>Character-level diff\<close>

text \<open>
  An array read \<^verbatim>\<open>xs[i]\<close>: \<open>None\<close> is \<^verbatim>\<open>undefined\<close>, the value past the end. The
  \<^verbatim>\<open>char\<close> field of a tagged character holds what was read.
\<close>

definition read_at :: "'a list \<Rightarrow> nat \<Rightarrow> 'a option" where
  "read_at xs i = (if i < length xs then Some (xs ! i) else None)"

record tagged_char =
  tc_char :: "jsstring option"
  tc_type :: change_type

record char_walk =
  origIdx :: nat
  modIdx :: nat
  origResult :: "tagged_char list"
  modResult :: "tagged_char list"

definition char_step :: "jsstring list \<Rightarrow> jsstring list \<Rightarrow> char_walk \<Rightarrow> char_walk" where
  "char_step origChars modChars s =
     (let origChar = read_at origChars (origIdx s); modChar = read_at modChars (modIdx s) in
      if origChar = modChar \<and> origChar \<noteq> None \<and> modChar \<noteq> None then
        s\<lparr>origResult := origResult s @ [\<lparr>tc_char = origChar, tc_type = Unchanged\<rparr>],
          modResult := modResult s @ [\<lparr>tc_char = modChar, tc_type = Unchanged\<rparr>],
          origIdx := origIdx s + 1, modIdx := modIdx s + 1\<rparr>
      else if origIdx s \<ge> length origChars then
        s\<lparr>modResult := modResult s @ [\<lparr>tc_char = modChar, tc_type = Added\<rparr>],
          modIdx := modIdx s + 1\<rparr>
      else if modIdx s \<ge> length modChars then
        s\<lparr>origResult := origResult s @ [\<lparr>tc_char = origChar, tc_type = Removed\<rparr>],
          origIdx := origIdx s + 1\<rparr>
      else
        s\<lparr>origResult := origResult s @ [\<lparr>tc_char = origChar, tc_type = Removed\<rparr>],
          modResult := modResult s @ [\<lparr>tc_char = modChar, tc_type = Added\<rparr>],
          origIdx := origIdx s + 1, modIdx := modIdx s + 1\<rparr>)"

function char_loop :: "jsstring list \<Rightarrow> jsstring list \<Rightarrow> char_walk \<Rightarrow> char_walk" where
  "char_loop origChars modChars s =
     (if origIdx s < length origChars \<or> modIdx s < length modChars
      then char_loop origChars modChars (char_step origChars modChars s)
      else s)"
  by pat_completeness auto
termination
  by (relation "measure (\<lambda>(origChars, modChars, s).
        (length origChars - origIdx s) + (length modChars - modIdx s))")
     (auto simp: char_step_def Let_def read_at_def)

text \<open>The result: the pair \<^verbatim>\<open>{ original: origResult, modified: modResult }\<close>.\<close>

definition computeCharacterDiff :: "jsstring \<Rightarrow> jsstring \<Rightarrow> tagged_char list \<times> tagged_char list" where
  "computeCharacterDiff originalText modifiedText =
     (let origChars = map (\<lambda>c. [c]) originalText;
          modChars = map (\<lambda>c. [c]) modifiedText;
          final = char_loop origChars modChars
                    \<lparr>origIdx = 0, modIdx = 0, origResult = [], modResult = []\<rparr>
      in (origResult final, modResult final))"

section \<open>Streaming coordinator\<close>

text \<open>
  The events an asynchronous generator yields, in order, are a list; an exception thrown
  before the first event is the error. An event holds the accumulated changes as they are
  when it is yielded. \<open>chunkSize\<close> is a natural number.
\<close>

datatype error = SyntaxError

record 'n event =
  progress :: 'n
  partial :: "'n DiffResult option"
  complete :: bool

text \<open>
  \<^verbatim>\<open>text.match(new RegExp(`.{1,${chunkSize}}`, 'gs')) || [text]\<close> for a positive
  \<open>chunkSize\<close>: pieces of \<open>chunkSize\<close> code units, the last one shorter; no match on the
  empty text.
\<close>

function pieces :: "nat \<Rightarrow> jsstring \<Rightarrow> jsstring list" where
  "pieces n s = (if n = 0 \<or> s = [] then [] else take n s # pieces n (drop n s))"
  by pat_completeness auto
termination
  by (relation "measure (\<lambda>(n, s). length s)") auto

definition match_chunks :: "nat \<Rightarrow> jsstring \<Rightarrow> jsstring list" where
  "match_chunks n s = (if pieces n s = [] then [s] else pieces n s)"

text \<open>\<^verbatim>\<open>chunks[i] || ''\<close>\<close>

definition chunk_at :: "jsstring list \<Rightarrow> nat \<Rightarrow> jsstring" where
  "chunk_at cs i = or_empty (read_at cs i)"

text \<open>One turn of the \<^verbatim>\<open>for\<close> loop over the chunks, on \<open>(allChanges, processed, events)\<close>.\<close>

definition chunk_step ::
  "'n host \<Rightarrow> 'n DiffOptions \<Rightarrow> jsstring list \<Rightarrow> jsstring list \<Rightarrow> nat
     \<Rightarrow> 'n DiffChange list \<times> nat \<times> 'n event list \<Rightarrow> nat
     \<Rightarrow> 'n DiffChange list \<times> nat \<times> 'n event list" where
  "chunk_step E options origChunks modChunks totalLength st i =
     (case st of (allChanges, processed, events) \<Rightarrow>
        let origChunk = chunk_at origChunks i;
            modChunk = chunk_at modChunks i;
            chunkResult = diff E origChunk modChunk options;
            allChanges' = allChanges @ changes chunkResult;
            processed' = processed + max (length origChunk) (length modChunk)
        in (allChanges', processed',
            events @ [\<lparr>progress = n_min E (lit E 100)
                          (n_mul E (n_div E (lit E (of_nat processed')) (lit E (of_nat totalLength)))
                             (lit E 100)),
                        partial = Some \<lparr>changes = allChanges', stats = stats_of allChanges'\<rparr>,
                        complete = False\<rparr>]))"

definition streamDiff ::
  "'n host \<Rightarrow> jsstring \<Rightarrow> jsstring \<Rightarrow> 'n DiffOptions \<Rightarrow> nat \<Rightarrow> error + 'n event list" where
  "streamDiff E originalText modifiedText options chunkSize =
     (let totalLength = max (length originalText) (length modifiedText) in
      if totalLength > chunkSize * 10 then
        (if chunkSize = 0 then Inl SyntaxError
         else
           let origChunks = match_chunks chunkSize originalText;
               modChunks = match_chunks chunkSize modifiedText;
               maxChunks = max (length origChunks) (length modChunks)
           in case foldl (chunk_step E options origChunks modChunks totalLength) ([], 0, [])
                     [0..<maxChunks] of
                (allChanges, processed, events) \<Rightarrow>
                  Inr (events @ [\<lparr>progress = lit E 100,
                                  partial = Some \<lparr>changes = allChanges,
                                                  stats = stats_of allChanges\<rparr>,
                                  complete = True\<rparr>]))
      else
        (let result = diff E originalText modifiedText options in
         Inr [\<lparr>progress = lit E 50, partial = Some result, complete = False\<rparr>,
              \<lparr>progress = lit E 100, partial = Some result, complete = True\<rparr>]))"

section \<open>A runtime for evaluating the model\<close>

text \<open>
  One instance of the runtime, for evaluating the functions on ASCII texts: lower-casing of
  the letters A to Z, and Numbers as exact rationals.
\<close>

function dec_digits :: "nat \<Rightarrow> jsstring" where
  "dec_digits n = (if n < 10 then [48 + n] else dec_digits (n div 10) @ [48 + n mod 10])"
  by pat_completeness auto
termination
  by (relation "measure id") auto

definition round_str :: "rat \<Rightarrow> jsstring" where
  "round_str x =
     (let r = \<lfloor>x + 1 / 2\<rfloor> in if r < 0 then 45 # dec_digits (nat (- r)) else dec_digits (nat r))"

definition ascii_host :: "rat host" where
  "ascii_host =
     \<lparr>toLowerCase = map (\<lambda>c. if 65 \<le> c \<and> c \<le> 90 then c + 32 else c),
      lit = (\<lambda>q. q),
      n_div = (\<lambda>x y. x / y),
      n_mul = (\<lambda>x y. x * y),
      n_add = (\<lambda>x y. x + y),
      n_min = min,
      n_gt = (\<lambda>x y. x > y),
      n_truthy = (\<lambda>x. x \<noteq> 0),
      n_round_str = round_str\<rparr>"

text \<open>The options object \<^verbatim>\<open>{}\<close> and \<^verbatim>\<open>{ granularity: g }\<close>.\<close>

definition no_options :: "'n DiffOptions" where
  "no_options = \<lparr>granularity = None, ignoreWhitespace = None, ignoreCase = None,
                 semanticAnalysis = None, similarityThreshold = None\<rparr>"

definition with_granularity :: "granularity_t \<Rightarrow> 'n DiffOptions" where
  "with_granularity g = no_options\<lparr>granularity := Some g\<rparr>"

text \<open>
  The change list of scenario A, \<^verbatim>\<open>diff("Hello world", "Hello there", {granularity: 'word'})\<close>.
\<close>

definition scenario_A :: "'n DiffChange list" where
  "scenario_A =
     [\<lparr>ctype = Unchanged, original = Some (js ''Hello''), modified = Some (js ''Hello''),
       originalLine = None, modifiedLine = None, similarity = None, explanation = None,
       keyWords = None\<rparr>,
      \<lparr>ctype = Unchanged, original = Some (js '' ''), modified = Some (js '' ''),
       originalLine = None, modifiedLine = None, similarity = None, explanation = None,
       keyWords = None\<rparr>,
      \<lparr>ctype = Modified, original = Some (js ''world''), modified = Some (js ''there''),
       originalLine = None, modifiedLine = None, similarity = None, explanation = None,
       keyWords = None\<rparr>]"

section \<open>Predicates and reference definitions used by the theorems\<close>

text \<open>
  The invariant of the loop of \<^verbatim>\<open>computeCharacterDiff\<close>: each result list holds, in order,
  the characters read so far from its side, with the tags of its side.
\<close>

definition char_inv :: "jsstring list \<Rightarrow> jsstring list \<Rightarrow> char_walk \<Rightarrow> bool" where
  "char_inv origChars modChars s =
     (origIdx s \<le> length origChars \<and> modIdx s \<le> length modChars
      \<and> map tc_char (origResult s) = map Some (take (origIdx s) origChars)
      \<and> map tc_char (modResult s) = map Some (take (modIdx s) modChars)
      \<and> set (map tc_type (origResult s)) \<subseteq> {Removed, Unchanged}
      \<and> set (map tc_type (modResult s)) \<subseteq> {Added, Unchanged})"

text \<open>The granularity \<open>diff\<close> works with: \<^verbatim>\<open>line\<close> when the option is absent.\<close>

definition granularity_of :: "'n DiffOptions \<Rightarrow> granularity_t" where
  "granularity_of options = (case granularity options of None \<Rightarrow> Line | Some v \<Rightarrow> v)"

text \<open>
  The change list of a text compared with itself, given its tokens: one unchanged record per
  token, with the running line number on both sides (kept only at line granularity).
\<close>

definition self_changes :: "granularity_t \<Rightarrow> jsstring list \<Rightarrow> 'n DiffChange list" where
  "self_changes g ts =
     map (\<lambda>p. unchanged_change g (ts ! p) (ts ! p) (p + 1) (p + 1)) [0..<length ts]"

text \<open>The text holds a carriage return immediately followed by a line feed.\<close>

fun has_crlf :: "jsstring \<Rightarrow> bool" where
  "has_crlf (c # d # cs) = ((c = 13 \<and> d = 10) \<or> has_crlf (d # cs))"
| "has_crlf cs = False"

text \<open>
  The maximal runs of a text, a run being white space only or free of white space: the
  reference for the word tokenizer.
\<close>

function ws_runs :: "jsstring \<Rightarrow> jsstring list" where
  "ws_runs [] = []"
| "ws_runs (c # cs) =
     (c # takeWhile (\<lambda>d. isSpace d = isSpace c) cs)
       # ws_runs (dropWhile (\<lambda>d. isSpace d = isSpace c) cs)"
  by pat_completeness auto
termination
  by (relation "measure length") (auto simp: less_Suc_eq_le length_dropWhile_le)

text \<open>A change record, and the state of the classifying loop, without the explanations.\<close>

definition erase_explanation :: "'n DiffChange \<Rightarrow> 'n DiffChange" where
  "erase_explanation c = c\<lparr>explanation := None\<rparr>"

definition erase_walk :: "'n walk \<Rightarrow> 'n walk" where
  "erase_walk s = s\<lparr>acc := map erase_explanation (acc s)\<rparr>"

text \<open>
  The options of scenario C, \<^verbatim>\<open>{ semanticAnalysis: true, similarityThreshold: t }\<close>, the
  threshold absent when \<open>t\<close> is \<open>None\<close>.
\<close>

definition fox_options :: "rat option \<Rightarrow> rat DiffOptions" where
  "fox_options t = no_options\<lparr>semanticAnalysis := Some True, similarityThreshold := t\<rparr>"

text \<open>
  Alphanumeric characters: the ASCII digits and letters. With the underscore they make up
  the class \<^verbatim>\<open>\w\<close>.
\<close>

definition isAlnum :: "jschar \<Rightarrow> bool" where
  "isAlnum c = ((48 \<le> c \<and> c \<le> 57) \<or> (65 \<le> c \<and> c \<le> 90) \<or> (97 \<le> c \<and> c \<le> 122))"

text \<open>
  The runs of a text for a class of characters: the maximal non-empty stretches of
  characters of the class, in order, found in one scan that collects the current run in
  \<open>cur\<close> and closes it at the first character outside the class. This is the reference
  for the word sets; it does not use the regular expression matcher of the model.
\<close>

fun runs_loop :: "(jschar \<Rightarrow> bool) \<Rightarrow> jsstring \<Rightarrow> jsstring \<Rightarrow> jsstring list" where
  "runs_loop P cur [] = (if cur = [] then [] else [cur])"
| "runs_loop P cur (c # cs) =
     (if P c then runs_loop P (cur @ [c]) cs
      else (if cur = [] then [] else [cur]) @ runs_loop P [] cs)"

definition char_runs :: "(jschar \<Rightarrow> bool) \<Rightarrow> jsstring \<Rightarrow> jsstring list" where
  "char_runs P s = runs_loop P [] s"

text \<open>
  The similarity of two word sets and two lengths as the specification words it: 1 when
  both word sets are empty, 0 when exactly one is, and otherwise the Jaccard index
  |intersection| / |union| weighted 0.7 plus the ratio of the shorter to the longer length
  weighted 0.3. The arithmetic is the runtime's; each product has the operands in the order
  of the source.
\<close>

definition weighted_similarity ::
  "'n host \<Rightarrow> jsstring set \<Rightarrow> jsstring set \<Rightarrow> nat \<Rightarrow> nat \<Rightarrow> 'n" where
  "weighted_similarity E A B la lb =
     (if A = {} \<and> B = {} then lit E 1
      else if A = {} \<or> B = {} then lit E 0
      else n_add E
             (n_mul E (n_div E (lit E (of_nat (card (A \<inter> B)))) (lit E (of_nat (card (A \<union> B)))))
                      (lit E (7 / 10)))
             (n_mul E (n_div E (lit E (of_nat (min la lb))) (lit E (of_nat (max la lb))))
                      (lit E (3 / 10))))"

text \<open>
  The similarity with the word sets of the specification's words: the alphanumeric runs of
  the lower-cased texts.
\<close>

definition claimed_similarity :: "'n host \<Rightarrow> jsstring \<Rightarrow> jsstring \<Rightarrow> 'n" where
  "claimed_similarity E a b =
     weighted_similarity E (set (char_runs isAlnum (toLowerCase E a)))
       (set (char_runs isAlnum (toLowerCase E b))) (length a) (length b)"

text \<open>
  The similarity with the word sets the code works with: the runs of ASCII letters, digits
  and underscores of the lower-cased texts.
\<close>

definition similarity_formula :: "'n host \<Rightarrow> jsstring \<Rightarrow> jsstring \<Rightarrow> 'n" where
  "similarity_formula E a b =
     weighted_similarity E (set (char_runs (\<lambda>c. isAlnum c \<or> c = 95) (toLowerCase E a)))
       (set (char_runs (\<lambda>c. isAlnum c \<or> c = 95) (toLowerCase E b))) (length a) (length b)"

declare split_loop.simps [simp del] backtrack.simps [simp del] diff_loop.simps [simp del]
  char_loop.simps [simp del] pieces.simps [simp del] dec_digits.simps [simp del]

section \<open>Evaluating \<^verbatim>\<open>diff\<close> stage by stage\<close>

text \<open>
  \<open>diff\<close> is the composition of its stages: the result follows from the tokens, the
  normalized tokens, the common subsequence and the final state of the loop.
\<close>

lemma diff_stages:
  assumes "(case granularity options of None \<Rightarrow> Line | Some v \<Rightarrow> v) = g"
    and "\<lparr>granularity = Some g,
          ignoreWhitespace = Some (case ignoreWhitespace options of None \<Rightarrow> False | Some v \<Rightarrow> v),
          ignoreCase = Some (case ignoreCase options of None \<Rightarrow> False | Some v \<Rightarrow> v),
          semanticAnalysis = None, similarityThreshold = None\<rparr> = opts"
    and "tokenize a g = tokens1"
    and "tokenize b g = tokens2"
    and "map (\<lambda>t. normalize E t opts) tokens1 = normalized1"
    and "map (\<lambda>t. normalize E t opts) tokens2 = normalized2"
    and "lcs normalized1 normalized2 = common"
    and "acc (diff_loop E options g tokens1 tokens2 normalized1 normalized2 common
           \<lparr>pos_i = 0, pos_j = 0, pos_k = 0, line_o = 1, line_m = 1, acc = []\<rparr>) = cs"
  shows "diff E a b options = \<lparr>changes = cs, stats = stats_of cs\<rparr>"
proof -
  have "diff E a b options =
      \<lparr>changes = acc (diff_loop E options g (tokenize a g) (tokenize b g)
           (map (\<lambda>t. normalize E t opts) (tokenize a g))
           (map (\<lambda>t. normalize E t opts) (tokenize b g))
           (lcs (map (\<lambda>t. normalize E t opts) (tokenize a g))
                (map (\<lambda>t. normalize E t opts) (tokenize b g)))
           \<lparr>pos_i = 0, pos_j = 0, pos_k = 0, line_o = 1, line_m = 1, acc = []\<rparr>),
       stats = stats_of (acc (diff_loop E options g (tokenize a g) (tokenize b g)
           (map (\<lambda>t. normalize E t opts) (tokenize a g))
           (map (\<lambda>t. normalize E t opts) (tokenize b g))
           (lcs (map (\<lambda>t. normalize E t opts) (tokenize a g))
                (map (\<lambda>t. normalize E t opts) (tokenize b g)))
           \<lparr>pos_i = 0, pos_j = 0, pos_k = 0, line_o = 1, line_m = 1, acc = []\<rparr>))\<rparr>"
    unfolding diff_def Let_def assms(1) assms(2) ..
  then show ?thesis
    by (simp only: assms)
qed

section \<open>The statistics count every change once\<close>

lemma count_type_sum:
  "count_type Added cs + count_type Removed cs + count_type Modified cs + count_type Unchanged cs
     = length cs"
proof (induction cs)
  case Nil
  show ?case by (simp add: count_type_def)
next
  case (Cons c cs)
  then show ?case by (cases "ctype c") (simp_all add: count_type_def)
qed

lemma diff_stats: "stats (diff E a b options) = stats_of (changes (diff E a b options))"
  by (simp add: diff_def Let_def)

text \<open>
  Claim C1. For every pair of texts and every options value, the four counts of the
  statistics of \<open>diff\<close> add up to the length of its list of changes.
\<close>

theorem diff_stats_sum:
  "n_added (stats (diff E a b options)) + n_removed (stats (diff E a b options))
     + n_modified (stats (diff E a b options)) + n_unchanged (stats (diff E a b options))
   = length (changes (diff E a b options))"
  by (simp add: diff_stats stats_of_def count_type_sum)

subsection \<open>Scenario A, evaluated\<close>

lemma normalize_plain:
  "normalize E t \<lparr>granularity = g, ignoreWhitespace = Some False, ignoreCase = Some False,
      semanticAnalysis = sa, similarityThreshold = th\<rparr> = t"
  by (simp add: normalize_def)

lemma hello_world_tokens:
  "tokenize (js ''Hello world'') Word = [js ''Hello'', js '' '', js ''world'']"
  by (simp add: js_def js_split_def split_loop.simps spaces_re_def isSpace_def)

lemma hello_there_tokens:
  "tokenize (js ''Hello there'') Word = [js ''Hello'', js '' '', js ''there'']"
  by (simp add: js_def js_split_def split_loop.simps spaces_re_def isSpace_def)

lemma hello_lcs:
  "lcs [js ''Hello'', js '' '', js ''world''] [js ''Hello'', js '' '', js ''there'']
     = [js ''Hello'', js '' '']"
  by (simp add: lcs_def lcs_table_def backtrack.simps backtrack_step_def js_def)

lemma hello_loop:
  fixes E :: "'a host"
  shows "acc (diff_loop E (with_granularity Word) Word
         [js ''Hello'', js '' '', js ''world''] [js ''Hello'', js '' '', js ''there'']
         [js ''Hello'', js '' '', js ''world''] [js ''Hello'', js '' '', js ''there'']
         [js ''Hello'', js '' '']
         \<lparr>pos_i = 0, pos_j = 0, pos_k = 0, line_o = 1, line_m = 1, acc = []\<rparr>) = scenario_A"
  by (simp add: diff_loop.simps diff_step_def Let_def next_line_def line_no_def js_def
        unchanged_change_def modified_change_def with_granularity_def no_options_def
        scenario_A_def)

lemma hello_world_diff:
  fixes E :: "'a host"
  shows "diff E (js ''Hello world'') (js ''Hello there'') (with_granularity Word) =
     \<lparr>changes = scenario_A,
      stats = \<lparr>n_added = 0, n_removed = 0, n_modified = 1, n_unchanged = 2\<rparr>\<rparr>"
proof -
  have "diff E (js ''Hello world'') (js ''Hello there'') (with_granularity Word) =
      \<lparr>changes = scenario_A, stats = stats_of (scenario_A :: 'a DiffChange list)\<rparr>"
  proof (rule diff_stages)
    show "(case granularity (with_granularity Word) of None \<Rightarrow> Line | Some v \<Rightarrow> v) = Word"
      by (simp add: with_granularity_def no_options_def)
    show "\<lparr>granularity = Some Word,
           ignoreWhitespace =
             Some (case ignoreWhitespace (with_granularity Word) of None \<Rightarrow> False | Some v \<Rightarrow> v),
           ignoreCase =
             Some (case ignoreCase (with_granularity Word) of None \<Rightarrow> False | Some v \<Rightarrow> v),
           semanticAnalysis = None, similarityThreshold = None\<rparr> =
         \<lparr>granularity = Some Word, ignoreWhitespace = Some False, ignoreCase = Some False,
           semanticAnalysis = None, similarityThreshold = None\<rparr>"
      by (simp add: with_granularity_def no_options_def)
    show "tokenize (js ''Hello world'') Word = [js ''Hello'', js '' '', js ''world'']"
      by (rule hello_world_tokens)
    show "tokenize (js ''Hello there'') Word = [js ''Hello'', js '' '', js ''there'']"
      by (rule hello_there_tokens)
    show "map (\<lambda>t. normalize E t
              \<lparr>granularity = Some Word, ignoreWhitespace = Some False, ignoreCase = Some False,
                semanticAnalysis = None, similarityThreshold = None\<rparr>)
            [js ''Hello'', js '' '', js ''world''] = [js ''Hello'', js '' '', js ''world'']"
      by (simp add: normalize_plain)
    show "map (\<lambda>t. normalize E t
              \<lparr>granularity = Some Word, ignoreWhitespace = Some False, ignoreCase = Some False,
                semanticAnalysis = None, similarityThreshold = None\<rparr>)
            [js ''Hello'', js '' '', js ''there''] = [js ''Hello'', js '' '', js ''there'']"
      by (simp add: normalize_plain)
    show "lcs [js ''Hello'', js '' '', js ''world''] [js ''Hello'', js '' '', js ''there'']
            = [js ''Hello'', js '' '']"
      by (rule hello_lcs)
    show "acc (diff_loop E (with_granularity Word) Word
            [js ''Hello'', js '' '', js ''world''] [js ''Hello'', js '' '', js ''there'']
            [js ''Hello'', js '' '', js ''world''] [js ''Hello'', js '' '', js ''there'']
            [js ''Hello'', js '' '']
            \<lparr>pos_i = 0, pos_j = 0, pos_k = 0, line_o = 1, line_m = 1, acc = []\<rparr>) = scenario_A"
      by (rule hello_loop)
  qed
  then show ?thesis
    by (simp add: stats_of_def count_type_def scenario_A_def)
qed

text \<open>
  Witness of C1: in scenario A the counts are 0, 0, 1 and 2, and the list has three changes.
\<close>

theorem diff_stats_sum_witness:
  "stats (diff ascii_host (js ''Hello world'') (js ''Hello there'') (with_granularity Word))
     = \<lparr>n_added = 0, n_removed = 0, n_modified = 1, n_unchanged = 2\<rparr>
   \<and> length (changes
         (diff ascii_host (js ''Hello world'') (js ''Hello there'') (with_granularity Word)))
       = 0 + 0 + 1 + 2"
  using diff_stats_sum [of ascii_host "js ''Hello world''" "js ''Hello there''"
      "with_granularity Word"]
  by (simp add: hello_world_diff)

section \<open>Character-level diff: both sides are reproduced\<close>

lemma char_step_inv:
  assumes "char_inv oc mc s" and "origIdx s < length oc \<or> modIdx s < length mc"
  shows "char_inv oc mc (char_step oc mc s)"
  using assms
  by (auto simp: char_inv_def char_step_def Let_def read_at_def take_Suc_conv_app_nth)

lemma char_loop_inv: "char_inv oc mc s \<Longrightarrow> char_inv oc mc (char_loop oc mc s)"
proof (induction oc mc s rule: char_loop.induct)
  case (1 oc mc s)
  show ?case
  proof (cases "origIdx s < length oc \<or> modIdx s < length mc")
    case True
    then have "char_inv oc mc (char_step oc mc s)"
      using "1.prems" by (simp add: char_step_inv)
    then have "char_inv oc mc (char_loop oc mc (char_step oc mc s))"
      using True "1.IH" by simp
    then show ?thesis
      using True by (subst char_loop.simps) simp
  next
    case False
    then show ?thesis
      using "1.prems" by (subst char_loop.simps) simp
  qed
qed

lemma char_loop_done:
  "\<not> (origIdx (char_loop oc mc s) < length oc \<or> modIdx (char_loop oc mc s) < length mc)"
proof (induction oc mc s rule: char_loop.induct)
  case (1 oc mc s)
  show ?case
  proof (cases "origIdx s < length oc \<or> modIdx s < length mc")
    case True
    then show ?thesis using "1.IH" by (subst (1 2) char_loop.simps) simp
  next
    case False
    then show ?thesis by (subst (1 2) char_loop.simps) simp
  qed
qed

lemma char_loop_result:
  assumes "char_inv oc mc s"
  shows "map tc_char (origResult (char_loop oc mc s)) = map Some oc"
    and "map tc_char (modResult (char_loop oc mc s)) = map Some mc"
    and "set (map tc_type (origResult (char_loop oc mc s))) \<subseteq> {Removed, Unchanged}"
    and "set (map tc_type (modResult (char_loop oc mc s))) \<subseteq> {Added, Unchanged}"
  using char_loop_inv [OF assms] char_loop_done [of oc mc s]
  by (simp_all add: char_inv_def)

lemma concat_singletons: "concat (map (\<lambda>c. [c]) xs) = xs"
  by (induction xs) simp_all

text \<open>
  Claim C10. For every pair of strings, the original-side list of \<open>computeCharacterDiff\<close>
  holds the code units of the original text, one per entry and in order, each tagged removed
  or unchanged, so that concatenating its \<^verbatim>\<open>char\<close> fields gives the original text; the
  modified-side list does the same for the modified text with the tags added or unchanged.
\<close>

theorem computeCharacterDiff_reproduces:
  "map tc_char (fst (computeCharacterDiff a b)) = map (\<lambda>c. Some [c]) a
   \<and> map tc_char (snd (computeCharacterDiff a b)) = map (\<lambda>c. Some [c]) b
   \<and> concat (map (\<lambda>x. or_empty (tc_char x)) (fst (computeCharacterDiff a b))) = a
   \<and> concat (map (\<lambda>x. or_empty (tc_char x)) (snd (computeCharacterDiff a b))) = b
   \<and> set (map tc_type (fst (computeCharacterDiff a b))) \<subseteq> {Removed, Unchanged}
   \<and> set (map tc_type (snd (computeCharacterDiff a b))) \<subseteq> {Added, Unchanged}"
proof -
  let ?oc = "map (\<lambda>c. [c]) a" and ?mc = "map (\<lambda>c. [c]) b"
  let ?s0 = "\<lparr>origIdx = 0, modIdx = 0, origResult = [], modResult = []\<rparr>"
  have inv: "char_inv ?oc ?mc ?s0"
    by (simp add: char_inv_def)
  have r: "computeCharacterDiff a b
      = (origResult (char_loop ?oc ?mc ?s0), modResult (char_loop ?oc ?mc ?s0))"
    by (simp add: computeCharacterDiff_def Let_def)
  have o: "map tc_char (fst (computeCharacterDiff a b)) = map (\<lambda>c. Some [c]) a"
    using char_loop_result(1) [OF inv] by (simp add: r comp_def)
  have m: "map tc_char (snd (computeCharacterDiff a b)) = map (\<lambda>c. Some [c]) b"
    using char_loop_result(2) [OF inv] by (simp add: r comp_def)
  have oc: "concat (map (\<lambda>x. or_empty (tc_char x)) (fst (computeCharacterDiff a b))) = a"
  proof -
    have "map (\<lambda>x. or_empty (tc_char x)) (fst (computeCharacterDiff a b))
        = map or_empty (map tc_char (fst (computeCharacterDiff a b)))"
      by (simp add: comp_def)
    then show ?thesis by (simp add: o comp_def concat_singletons)
  qed
  have mc: "concat (map (\<lambda>x. or_empty (tc_char x)) (snd (computeCharacterDiff a b))) = b"
  proof -
    have "map (\<lambda>x. or_empty (tc_char x)) (snd (computeCharacterDiff a b))
        = map or_empty (map tc_char (snd (computeCharacterDiff a b)))"
      by (simp add: comp_def)
    then show ?thesis by (simp add: m comp_def concat_singletons)
  qed
  show ?thesis
    using o m oc mc char_loop_result(3) [OF inv] char_loop_result(4) [OF inv]
    by (simp add: r)
qed

text \<open>Witness of C10: \<^verbatim>\<open>computeCharacterDiff("abc", "axcd")\<close>.\<close>

theorem computeCharacterDiff_reproduces_witness:
  "computeCharacterDiff (js ''abc'') (js ''axcd'') =
     ([\<lparr>tc_char = Some (js ''a''), tc_type = Unchanged\<rparr>,
       \<lparr>tc_char = Some (js ''b''), tc_type = Removed\<rparr>,
       \<lparr>tc_char = Some (js ''c''), tc_type = Unchanged\<rparr>],
      [\<lparr>tc_char = Some (js ''a''), tc_type = Unchanged\<rparr>,
       \<lparr>tc_char = Some (js ''x''), tc_type = Added\<rparr>,
       \<lparr>tc_char = Some (js ''c''), tc_type = Unchanged\<rparr>,
       \<lparr>tc_char = Some (js ''d''), tc_type = Added\<rparr>])
   \<and> concat (map (\<lambda>x. or_empty (tc_char x)) (fst (computeCharacterDiff (js ''abc'') (js ''axcd''))))
       = js ''abc''
   \<and> concat (map (\<lambda>x. or_empty (tc_char x)) (snd (computeCharacterDiff (js ''abc'') (js ''axcd''))))
       = js ''axcd''"
  using computeCharacterDiff_reproduces [of "js ''abc''" "js ''axcd''"]
  by (simp add: computeCharacterDiff_def Let_def char_loop.simps char_step_def read_at_def js_def)

section \<open>Streaming below the chunking threshold\<close>

text \<open>
  Claim C9. When the longer of the two texts has at most ten times \<open>chunkSize\<close> code
  units (the source's test \<^verbatim>\<open>totalLength > chunkSize * 10\<close> fails), \<open>streamDiff\<close> yields
  exactly two events and then ends: progress 50 with \<^verbatim>\<open>complete = false\<close>, then progress 100
  with \<^verbatim>\<open>complete = true\<close>, both carrying the result of \<open>diff\<close> on the whole texts.
\<close>

theorem streamDiff_small:
  assumes "max (length a) (length b) \<le> chunkSize * 10"
  shows "streamDiff E a b options chunkSize =
           Inr [\<lparr>progress = lit E 50, partial = Some (diff E a b options), complete = False\<rparr>,
                \<lparr>progress = lit E 100, partial = Some (diff E a b options), complete = True\<rparr>]"
proof -
  have "\<not> max (length a) (length b) > chunkSize * 10"
    using assms by (simp only: not_less)
  then show ?thesis
    by (simp only: streamDiff_def Let_def if_False)
qed

text \<open>Witness of C9: scenario A with the default chunk size 1000.\<close>

theorem streamDiff_small_witness:
  "max (length (js ''Hello world'')) (length (js ''Hello there'')) \<le> (1000::nat) * 10
   \<and> streamDiff ascii_host (js ''Hello world'') (js ''Hello there'') (with_granularity Word) 1000 =
       Inr [\<lparr>progress = 50,
              partial = Some \<lparr>changes = scenario_A,
                 stats = \<lparr>n_added = 0, n_removed = 0, n_modified = 1, n_unchanged = 2\<rparr>\<rparr>,
              complete = False\<rparr>,
            \<lparr>progress = 100,
              partial = Some \<lparr>changes = scenario_A,
                 stats = \<lparr>n_added = 0, n_removed = 0, n_modified = 1, n_unchanged = 2\<rparr>\<rparr>,
              complete = True\<rparr>]"
proof -
  have small: "max (length (js ''Hello world'')) (length (js ''Hello there'')) \<le> (1000::nat) * 10"
    by (simp add: js_def)
  have "lit ascii_host 50 = 50" and "lit ascii_host 100 = 100"
    by (simp_all add: ascii_host_def)
  then show ?thesis
    using small streamDiff_small [OF small, of ascii_host "with_granularity Word"]
    by (simp add: hello_world_diff)
qed

section \<open>The tie-break of the backtrack\<close>

text \<open>
  Claim C3, as amended. In a turn of the backtracking loop (\<open>i > 0\<close> and \<open>j > 0\<close>) where
  the two current tokens differ and \<^verbatim>\<open>dp[i-1][j] > dp[i][j-1]\<close> does not hold, ties included,
  the loop decrements the modified-side pointer \<open>j\<close> and leaves the original-side pointer
  \<open>i\<close> and the result as they are.
\<close>

theorem backtrack_tie_moves_modified_side:
  assumes "i > 0" and "j > 0"
    and "arr1 ! (i - 1) \<noteq> arr2 ! (j - 1)"
    and "\<not> dp ! (i - 1) ! j > dp ! i ! (j - 1)"
  shows "backtrack_step arr1 arr2 dp (i, j, result) = (i, j - 1, result)
    \<and> backtrack arr1 arr2 dp (i, j, result) = backtrack arr1 arr2 dp (i, j - 1, result)"
proof -
  have step: "backtrack_step arr1 arr2 dp (i, j, result) = (i, j - 1, result)"
    using assms by (simp add: backtrack_step_def)
  have "backtrack arr1 arr2 dp (i, j, result)
      = backtrack arr1 arr2 dp (backtrack_step arr1 arr2 dp (i, j, result))"
    using assms(1,2) by (subst backtrack.simps) simp
  then show ?thesis
    by (simp add: step)
qed

lemma ab_ba_table:
  "lcs_table [js ''a'', js ''b''] [js ''b'', js ''a''] = [[0, 0, 0], [0, 0, 1], [0, 1, 1]]"
  by (simp add: lcs_table_def js_def)

text \<open>
  Counterexample to C3 as stated: for the token lists \<open>[a, b]\<close> and \<open>[b, a]\<close> the
  backtrack starts at \<open>(2, 2)\<close> with unequal tokens and a tie in the table (both
  neighbours hold 1). The loop goes to \<open>(2, 1)\<close>, not to \<open>(1, 2)\<close>, and the common
  subsequence is \<open>[b]\<close>; decrementing \<open>i\<close> would have given \<open>[a]\<close>.
\<close>

theorem backtrack_tie_counterexample:
  "[js ''a'', js ''b''] ! (2 - 1) \<noteq> [js ''b'', js ''a''] ! (2 - 1)
   \<and> lcs_table [js ''a'', js ''b''] [js ''b'', js ''a''] ! (2 - 1) ! 2
       = lcs_table [js ''a'', js ''b''] [js ''b'', js ''a''] ! 2 ! (2 - 1)
   \<and> backtrack_step [js ''a'', js ''b''] [js ''b'', js ''a'']
         (lcs_table [js ''a'', js ''b''] [js ''b'', js ''a'']) (2, 2, []) = (2, 1, [])
   \<and> backtrack_step [js ''a'', js ''b''] [js ''b'', js ''a'']
         (lcs_table [js ''a'', js ''b''] [js ''b'', js ''a'']) (2, 2, []) \<noteq> (1, 2, [])
   \<and> lcs [js ''a'', js ''b''] [js ''b'', js ''a''] = [js ''b'']"
  unfolding lcs_def Let_def ab_ba_table
  by (simp add: backtrack_step_def backtrack.simps js_def)

text \<open>Witness of the amended C3, at the same state.\<close>

theorem backtrack_tie_moves_modified_side_witness:
  "(2::nat) > 0
   \<and> [js ''a'', js ''b''] ! (2 - 1) \<noteq> [js ''b'', js ''a''] ! (2 - 1)
   \<and> \<not> lcs_table [js ''a'', js ''b''] [js ''b'', js ''a''] ! (2 - 1) ! 2
       > lcs_table [js ''a'', js ''b''] [js ''b'', js ''a''] ! 2 ! (2 - 1)
   \<and> backtrack_step [js ''a'', js ''b''] [js ''b'', js ''a'']
         (lcs_table [js ''a'', js ''b''] [js ''b'', js ''a'']) (2, 2, []) = (2, 2 - 1, [])
   \<and> backtrack [js ''a'', js ''b''] [js ''b'', js ''a'']
         (lcs_table [js ''a'', js ''b''] [js ''b'', js ''a'']) (2, 2, [])
       = backtrack [js ''a'', js ''b''] [js ''b'', js ''a'']
           (lcs_table [js ''a'', js ''b''] [js ''b'', js ''a'']) (2, 2 - 1, [])"
proof -
  have pos: "(2::nat) > 0"
    by simp
  have h1: "[js ''a'', js ''b''] ! (2 - 1) \<noteq> [js ''b'', js ''a''] ! (2 - 1)"
    by (simp add: js_def)
  have h2: "\<not> lcs_table [js ''a'', js ''b''] [js ''b'', js ''a''] ! (2 - 1) ! 2
       > lcs_table [js ''a'', js ''b''] [js ''b'', js ''a''] ! 2 ! (2 - 1)"
    unfolding ab_ba_table by simp
  show ?thesis
    using pos h1 h2 backtrack_tie_moves_modified_side [OF pos pos h1 h2, of "[]"] by simp
qed

section \<open>A text compared with itself\<close>

lemma backtrack_self:
  "i \<le> length xs \<Longrightarrow> backtrack xs xs dp (i, i, res) = take i xs @ res"
proof (induction i arbitrary: res)
  case 0
  show ?case by (subst backtrack.simps) simp
next
  case (Suc i)
  then have lt: "i < length xs" by simp
  have "backtrack xs xs dp (Suc i, Suc i, res) = backtrack xs xs dp (i, i, xs ! i # res)"
    by (subst backtrack.simps) (simp add: backtrack_step_def)
  also have "\<dots> = take i xs @ (xs ! i # res)"
    using Suc.IH [of "xs ! i # res"] lt by simp
  also have "\<dots> = take (Suc i) xs @ res"
    using lt by (simp add: take_Suc_conv_app_nth)
  finally show ?case .
qed

lemma lcs_self: "lcs xs xs = xs"
  by (simp add: lcs_def Let_def backtrack_self)

lemma unchanged_change_line:
  "line_no g l = line_no g l' \<Longrightarrow> line_no g m = line_no g m'
     \<Longrightarrow> unchanged_change g t1 t2 l m = unchanged_change g t1 t2 l' m'"
  by (simp add: unchanged_change_def)

lemma line_no_next: "line_no g l = line_no g (Suc i) \<Longrightarrow> line_no g (next_line g l) = line_no g (Suc (Suc i))"
  by (simp add: line_no_def next_line_def split: if_splits)

lemma self_step:
  fixes E :: "'a host"
  assumes "pos_i s = i" "pos_j s = i" "pos_k s = i" "i < length ts" "length ns = length ts"
    and "line_no g (line_o s) = line_no g (Suc i)" "line_no g (line_m s) = line_no g (Suc i)"
  shows "diff_step E options g ts ts ns ns ns s =
      s\<lparr>acc := acc s @ [unchanged_change g (ts ! i) (ts ! i) (Suc i) (Suc i)],
        pos_i := Suc i, pos_j := Suc i, pos_k := Suc i,
        line_o := next_line g (line_o s), line_m := next_line g (line_m s)\<rparr>"
proof -
  have eq: "unchanged_change g (ts ! i) (ts ! i) (line_o s) (line_m s)
      = (unchanged_change g (ts ! i) (ts ! i) (Suc i) (Suc i) :: 'a DiffChange)"
    using assms(6,7) by (rule unchanged_change_line)
  have "diff_step E options g ts ts ns ns ns s =
      s\<lparr>acc := acc s @ [unchanged_change g (ts ! i) (ts ! i) (line_o s) (line_m s)],
        pos_i := Suc i, pos_j := Suc i, pos_k := Suc i,
        line_o := next_line g (line_o s), line_m := next_line g (line_m s)\<rparr>"
    using assms(1-5) by (simp add: diff_step_def Let_def)
  then show ?thesis
    by (simp only: eq)
qed

lemma self_loop:
  assumes "length ns = length ts"
  shows "pos_i s = i \<Longrightarrow> pos_j s = i \<Longrightarrow> pos_k s = i \<Longrightarrow> i \<le> length ts
    \<Longrightarrow> line_no g (line_o s) = line_no g (Suc i) \<Longrightarrow> line_no g (line_m s) = line_no g (Suc i)
    \<Longrightarrow> acc (diff_loop E options g ts ts ns ns ns s) =
        acc s @ map (\<lambda>p. unchanged_change g (ts ! p) (ts ! p) (p + 1) (p + 1)) [i..<length ts]"
proof (induction "length ts - i" arbitrary: s i)
  case 0
  then have "i = length ts" by simp
  then show ?case
    using 0 by (subst diff_loop.simps) simp
next
  case (Suc d)
  then have lt: "i < length ts" by simp
  let ?s' = "s\<lparr>acc := acc s @ [unchanged_change g (ts ! i) (ts ! i) (Suc i) (Suc i)],
        pos_i := Suc i, pos_j := Suc i, pos_k := Suc i,
        line_o := next_line g (line_o s), line_m := next_line g (line_m s)\<rparr>"
  have step: "diff_step E options g ts ts ns ns ns s = ?s'"
    using Suc.prems lt assms by (intro self_step) simp_all
  have "acc (diff_loop E options g ts ts ns ns ns s) = acc (diff_loop E options g ts ts ns ns ns ?s')"
    using lt Suc.prems(1) by (subst diff_loop.simps) (simp add: step)
  also have "\<dots> = acc ?s' @ map (\<lambda>p. unchanged_change g (ts ! p) (ts ! p) (p + 1) (p + 1)) [Suc i..<length ts]"
  proof (rule Suc.hyps(1))
    show "d = length ts - Suc i" using Suc.hyps(2) by simp
    show "Suc i \<le> length ts" using lt by simp
    show "line_no g (line_o ?s') = line_no g (Suc (Suc i))"
      using Suc.prems(5) by (simp add: line_no_next)
    show "line_no g (line_m ?s') = line_no g (Suc (Suc i))"
      using Suc.prems(6) by (simp add: line_no_next)
  qed simp_all
  also have "\<dots> = acc s @ map (\<lambda>p. unchanged_change g (ts ! p) (ts ! p) (p + 1) (p + 1)) [i..<length ts]"
    using lt by (simp add: upt_conv_Cons)
  finally show ?case .
qed

lemma diff_self:
  fixes E :: "'a host"
  shows "diff E T T options =
     \<lparr>changes = self_changes (granularity_of options) (tokenize T (granularity_of options)),
      stats = stats_of (self_changes (granularity_of options) (tokenize T (granularity_of options))
                 :: 'a DiffChange list)\<rparr>"
proof (rule diff_stages)
  show "(case granularity options of None \<Rightarrow> Line | Some v \<Rightarrow> v) = granularity_of options"
    by (simp add: granularity_of_def)
  show "lcs (map (\<lambda>t. normalize E t \<lparr>granularity = Some (granularity_of options),
          ignoreWhitespace = Some (case ignoreWhitespace options of None \<Rightarrow> False | Some v \<Rightarrow> v),
          ignoreCase = Some (case ignoreCase options of None \<Rightarrow> False | Some v \<Rightarrow> v),
          semanticAnalysis = None, similarityThreshold = None\<rparr>) (tokenize T (granularity_of options)))
         (map (\<lambda>t. normalize E t \<lparr>granularity = Some (granularity_of options),
          ignoreWhitespace = Some (case ignoreWhitespace options of None \<Rightarrow> False | Some v \<Rightarrow> v),
          ignoreCase = Some (case ignoreCase options of None \<Rightarrow> False | Some v \<Rightarrow> v),
          semanticAnalysis = None, similarityThreshold = None\<rparr>) (tokenize T (granularity_of options)))
      = map (\<lambda>t. normalize E t \<lparr>granularity = Some (granularity_of options),
          ignoreWhitespace = Some (case ignoreWhitespace options of None \<Rightarrow> False | Some v \<Rightarrow> v),
          ignoreCase = Some (case ignoreCase options of None \<Rightarrow> False | Some v \<Rightarrow> v),
          semanticAnalysis = None, similarityThreshold = None\<rparr>) (tokenize T (granularity_of options))"
    by (rule lcs_self)
  show "acc (diff_loop E options (granularity_of options)
          (tokenize T (granularity_of options)) (tokenize T (granularity_of options))
          (map (\<lambda>t. normalize E t \<lparr>granularity = Some (granularity_of options),
          ignoreWhitespace = Some (case ignoreWhitespace options of None \<Rightarrow> False | Some v \<Rightarrow> v),
          ignoreCase = Some (case ignoreCase options of None \<Rightarrow> False | Some v \<Rightarrow> v),
          semanticAnalysis = None, similarityThreshold = None\<rparr>) (tokenize T (granularity_of options)))
          (map (\<lambda>t. normalize E t \<lparr>granularity = Some (granularity_of options),
          ignoreWhitespace = Some (case ignoreWhitespace options of None \<Rightarrow> False | Some v \<Rightarrow> v),
          ignoreCase = Some (case ignoreCase options of None \<Rightarrow> False | Some v \<Rightarrow> v),
          semanticAnalysis = None, similarityThreshold = None\<rparr>) (tokenize T (granularity_of options)))
          (map (\<lambda>t. normalize E t \<lparr>granularity = Some (granularity_of options),
          ignoreWhitespace = Some (case ignoreWhitespace options of None \<Rightarrow> False | Some v \<Rightarrow> v),
          ignoreCase = Some (case ignoreCase options of None \<Rightarrow> False | Some v \<Rightarrow> v),
          semanticAnalysis = None, similarityThreshold = None\<rparr>) (tokenize T (granularity_of options)))
          \<lparr>pos_i = 0, pos_j = 0, pos_k = 0, line_o = 1, line_m = 1, acc = []\<rparr>)
        = self_changes (granularity_of options) (tokenize T (granularity_of options))"
    using self_loop [of _ "tokenize T (granularity_of options)"
        "\<lparr>pos_i = 0, pos_j = 0, pos_k = 0, line_o = 1, line_m = 1, acc = []\<rparr>" 0
        "granularity_of options" E options]
    by (simp add: self_changes_def)
qed (rule refl)+

lemma self_changes_ctype: "c \<in> set (self_changes g ts) \<Longrightarrow> ctype c = Unchanged"
  by (auto simp: self_changes_def unchanged_change_def)

lemma count_type_none:
  "(\<And>c. c \<in> set cs \<Longrightarrow> ctype c \<noteq> t) \<Longrightarrow> count_type t cs = 0"
  by (simp add: count_type_def)

text \<open>
  Claim C5. For every text \<open>T\<close> and every options value, every change record of
  \<open>diff(T, T, options)\<close> has kind unchanged, and the counts of added, removed and modified
  entries are zero.
\<close>

theorem self_diff_all_unchanged:
  "(\<forall>c \<in> set (changes (diff E T T options)). ctype c = Unchanged)
   \<and> n_added (stats (diff E T T options)) = 0
   \<and> n_removed (stats (diff E T T options)) = 0
   \<and> n_modified (stats (diff E T T options)) = 0"
proof -
  let ?cs = "changes (diff E T T options)"
  have cs: "?cs = self_changes (granularity_of options) (tokenize T (granularity_of options))"
    by (simp add: diff_self)
  have all: "\<And>c. c \<in> set ?cs \<Longrightarrow> ctype c = Unchanged"
    unfolding cs by (rule self_changes_ctype)
  have "count_type Added ?cs = 0" "count_type Removed ?cs = 0" "count_type Modified ?cs = 0"
    using all by (simp_all add: count_type_none)
  then show ?thesis
    using all by (simp add: diff_stats stats_of_def)
qed

lemma granularity_of_with [simp]: "granularity_of (with_granularity g) = g"
  by (simp add: granularity_of_def with_granularity_def no_options_def)

lemma granularity_of_none [simp]: "granularity_of no_options = Line"
  by (simp add: granularity_of_def no_options_def)

text \<open>Witness of C5: \<^verbatim>\<open>"Hello world"\<close> against itself at word granularity.\<close>

theorem self_diff_all_unchanged_witness:
  "map ctype (changes (diff ascii_host (js ''Hello world'') (js ''Hello world'')
      (with_granularity Word))) = [Unchanged, Unchanged, Unchanged]
   \<and> stats (diff ascii_host (js ''Hello world'') (js ''Hello world'') (with_granularity Word))
       = \<lparr>n_added = 0, n_removed = 0, n_modified = 0, n_unchanged = 3\<rparr>"
  using self_diff_all_unchanged [of ascii_host "js ''Hello world''" "with_granularity Word"]
  by (simp add: diff_self hello_world_tokens self_changes_def unchanged_change_def
        stats_of_def count_type_def del: tokenize.simps)

section \<open>Two empty texts\<close>

lemma tokenize_empty: "tokenize [] g = (if g = Line then [[]] else [])"
  by (cases g)
     (simp_all add: js_split_def newline_re_def spaces_re_def sentence_end_re_def
        blank_line_re_def trim_def)

lemma diff_empty_changes:
  "changes (diff E [] [] options) =
     (if granularity_of options = Line then [unchanged_change Line [] [] 1 1] else [])"
  by (simp add: diff_self tokenize_empty self_changes_def)

text \<open>
  Claim C4, as amended. \<open>diff("", "", options)\<close> has an empty change list and all four
  counts zero when the granularity is word, character, sentence or paragraph. At line
  granularity, which is also the default, the empty text splits into one empty line: the
  result is one unchanged record for that line, numbered 1 on both sides, and the count of
  unchanged entries is 1.
\<close>

theorem diff_empty:
  "diff E [] [] options =
     (if granularity_of options = Line
      then \<lparr>changes = [unchanged_change Line [] [] 1 1],
            stats = \<lparr>n_added = 0, n_removed = 0, n_modified = 0, n_unchanged = 1\<rparr>\<rparr>
      else \<lparr>changes = [],
            stats = \<lparr>n_added = 0, n_removed = 0, n_modified = 0, n_unchanged = 0\<rparr>\<rparr>)"
proof -
  have "diff E [] [] options
      = \<lparr>changes = changes (diff E [] [] options),
         stats = stats_of (changes (diff E [] [] options))\<rparr>"
    using diff_stats [of E "[]" "[]" options] by simp
  then show ?thesis
    by (simp add: diff_empty_changes stats_of_def count_type_def unchanged_change_def)
qed

text \<open>
  Counterexample to C4 as stated: with the options \<^verbatim>\<open>{}\<close> the change list of two empty
  texts has one record and the count of unchanged entries is 1.
\<close>

theorem diff_empty_counterexample:
  "changes (diff ascii_host (js '''') (js '''') no_options) =
     [\<lparr>ctype = Unchanged, original = Some (js ''''), modified = Some (js ''''),
       originalLine = Some 1, modifiedLine = Some 1, similarity = None, explanation = None,
       keyWords = None\<rparr>]
   \<and> stats (diff ascii_host (js '''') (js '''') no_options)
       = \<lparr>n_added = 0, n_removed = 0, n_modified = 0, n_unchanged = 1\<rparr>"
  by (simp add: js_def diff_stats diff_empty_changes stats_of_def count_type_def
        unchanged_change_def line_no_def)

text \<open>Witness of the amended C4, at word and at line granularity.\<close>

theorem diff_empty_witness:
  "diff ascii_host (js '''') (js '''') (with_granularity Word) =
     \<lparr>changes = [], stats = \<lparr>n_added = 0, n_removed = 0, n_modified = 0, n_unchanged = 0\<rparr>\<rparr>
   \<and> diff ascii_host (js '''') (js '''') (with_granularity Line) =
     \<lparr>changes = [\<lparr>ctype = Unchanged, original = Some [], modified = Some [],
                   originalLine = Some 1, modifiedLine = Some 1, similarity = None,
                   explanation = None, keyWords = None\<rparr>],
      stats = \<lparr>n_added = 0, n_removed = 0, n_modified = 0, n_unchanged = 1\<rparr>\<rparr>"
  using diff_empty [of ascii_host "with_granularity Word"]
    diff_empty [of ascii_host "with_granularity Line"]
  by (simp add: js_def unchanged_change_def line_no_def)

section \<open>Merging the self-diff\<close>

lemma merge_unchanged:
  "(\<And>c. c \<in> set cs \<Longrightarrow> ctype c = Unchanged)
     \<Longrightarrow> foldl (merge_entry d) lines (enumerate k cs) = lines @ map (\<lambda>c. or_empty (original c)) cs"
proof (induction cs arbitrary: lines k)
  case Nil
  show ?case by simp
next
  case (Cons c cs)
  have c: "ctype c = Unchanged"
    using Cons.prems by simp
  have "foldl (merge_entry d) lines (enumerate k (c # cs))
      = foldl (merge_entry d) (lines @ [or_empty (original c)]) (enumerate (Suc k) cs)"
    by (simp add: merge_entry_def c Let_def)
  also have "\<dots> = (lines @ [or_empty (original c)]) @ map (\<lambda>c. or_empty (original c)) cs"
    using Cons.prems by (intro Cons.IH) simp
  finally show ?case by simp
qed

lemma self_changes_originals: "map (\<lambda>c. or_empty (original c)) (self_changes g ts) = ts"
  by (simp add: self_changes_def unchanged_change_def comp_def map_nth)

lemma merged_self:
  "generateMergedText (changes (diff E T T options)) decisions
     = join [10] (tokenize T (granularity_of options))"
proof -
  have "foldl (merge_entry decisions) []
          (enumerate 0 (self_changes (granularity_of options) (tokenize T (granularity_of options))
             :: 'a DiffChange list))
      = [] @ map (\<lambda>c. or_empty (original c))
          (self_changes (granularity_of options) (tokenize T (granularity_of options))
             :: 'a DiffChange list)"
    by (rule merge_unchanged) (rule self_changes_ctype)
  then show ?thesis
    by (simp add: generateMergedText_def diff_self self_changes_originals del: tokenize.simps)
qed

lemma split_loop_not_Nil: "split_loop m cap cur rest \<noteq> []"
  by (induction m cap cur rest rule: split_loop.induct)
     (simp_all add: split_loop.simps split: option.splits)

lemma join_Cons: "ys \<noteq> [] \<Longrightarrow> join sep (x # ys) = x @ sep @ join sep ys"
  by (cases ys) simp_all

lemma has_crlf_Cons: "has_crlf ys \<Longrightarrow> has_crlf (x # ys)"
  by (cases ys) auto

lemma has_crlf_suffix: "\<not> has_crlf (xs @ ys) \<Longrightarrow> \<not> has_crlf ys"
proof (induction xs)
  case Nil
  then show ?case by simp
next
  case (Cons x xs)
  then show ?case
    using has_crlf_Cons [of "xs @ ys" x] by auto
qed

lemma has_crlf_mid: "has_crlf (xs @ 13 # 10 # ys)"
  by (induction xs) (simp_all add: has_crlf_Cons)

lemma newline_re_cases:
  "newline_re (c # cs) =
     (if c = 13 \<and> take 1 cs = [10] then Some 2 else if c = 10 then Some 1 else None)"
  by (cases cs) (simp_all add: newline_re_def)

lemma join_split_loop_lines:
  "\<not> has_crlf (cur @ rest) \<Longrightarrow> join [10] (split_loop newline_re False cur rest) = cur @ rest"
proof (induction rest arbitrary: cur)
  case Nil
  show ?case by (simp add: split_loop.simps)
next
  case (Cons c cs)
  show ?case
  proof (cases "c = 13 \<and> take 1 cs = [10]")
    case True
    then obtain ys where "cs = 10 # ys"
      by (cases cs) simp_all
    then have "has_crlf (cur @ c # cs)"
      using True by (simp add: has_crlf_mid)
    then show ?thesis
      using Cons.prems by simp
  next
    case False
    show ?thesis
    proof (cases "c = 10")
      case True
      have "\<not> has_crlf cs"
        using Cons.prems has_crlf_suffix [of "cur @ [c]" cs] by simp
      then have rest: "join [10] (split_loop newline_re False [] cs) = cs"
        using Cons.IH [of "[]"] by simp
      have "newline_re (c # cs) = Some 1"
        using True by (simp add: newline_re_cases)
      then have "split_loop newline_re False cur (c # cs)
          = cur # split_loop newline_re False [] cs"
        by (simp add: split_loop.simps)
      then show ?thesis
        using True rest by (simp add: join_Cons split_loop_not_Nil)
    next
      case c: False
      have "\<not> has_crlf ((cur @ [c]) @ cs)"
        using Cons.prems by simp
      then have "join [10] (split_loop newline_re False (cur @ [c]) cs) = (cur @ [c]) @ cs"
        by (rule Cons.IH)
      moreover have "newline_re (c # cs) = None"
        using False c by (auto simp: newline_re_cases)
      then have "split_loop newline_re False cur (c # cs)
          = split_loop newline_re False (cur @ [c]) cs"
        by (simp add: split_loop.simps)
      ultimately show ?thesis by simp
    qed
  qed
qed

lemma join_split_lines:
  "\<not> has_crlf T \<Longrightarrow> join [10] (tokenize T Line) = T"
  using join_split_loop_lines [of "[]" T]
  by (simp add: js_split_def newline_re_def)

text \<open>
  Claim C6, as amended. For every text \<open>T\<close>, every options value and every decision map,
  replaying the change list of \<open>diff(T, T, options)\<close> through \<open>generateMergedText\<close>
  gives the tokens of \<open>T\<close> at the options' granularity joined by line feeds. This is \<open>T\<close>
  itself when the granularity is line and \<open>T\<close> holds no carriage return followed by a
  line feed.
\<close>

theorem merge_self_diff:
  "generateMergedText (changes (diff E T T options)) decisions
     = join [10] (tokenize T (granularity_of options))
   \<and> (granularity_of options = Line \<and> \<not> has_crlf T
        \<longrightarrow> generateMergedText (changes (diff E T T options)) decisions = T)"
  by (simp add: merged_self join_split_lines del: tokenize.simps)

lemma crlf_lines: "tokenize [97, 13, 10, 98] Line = [[97], [98]]"
  by (simp add: js_split_def split_loop.simps newline_re_def)

text \<open>
  Counterexample to C6 as stated: at word granularity \<^verbatim>\<open>"Hello world"\<close> comes back as
  \<^verbatim>\<open>"Hello\n \nworld"\<close>, and at the default line granularity \<^verbatim>\<open>"a\r\nb"\<close> comes back as
  \<^verbatim>\<open>"a\nb"\<close>; the decision map is empty in both.
\<close>

theorem merge_self_diff_counterexample:
  "generateMergedText
     (changes (diff ascii_host (js ''Hello world'') (js ''Hello world'') (with_granularity Word)))
     Map.empty = js ''Hello'' @ [10] @ js '' '' @ [10] @ js ''world''
   \<and> js ''Hello'' @ [10] @ js '' '' @ [10] @ js ''world'' \<noteq> js ''Hello world''
   \<and> generateMergedText (changes (diff ascii_host [97, 13, 10, 98] [97, 13, 10, 98] no_options))
         Map.empty = [97, 10, 98]"
  by (simp add: merged_self hello_world_tokens crlf_lines del: tokenize.simps)
     (simp add: js_def)

text \<open>
  Witness of the amended C6: \<^verbatim>\<open>"a\nb"\<close> with the default options and a decision map that
  rejects entry 0 and accepts entry 1.
\<close>

theorem merge_self_diff_witness:
  "granularity_of (no_options :: rat DiffOptions) = Line \<and> \<not> has_crlf (js ''a'' @ [10] @ js ''b'')
   \<and> generateMergedText
         (changes (diff ascii_host (js ''a'' @ [10] @ js ''b'') (js ''a'' @ [10] @ js ''b'')
            no_options))
         (Map.empty(0 \<mapsto> Reject, 1 \<mapsto> Accept)) = js ''a'' @ [10] @ js ''b''
   \<and> tokenize (js ''a'' @ [10] @ js ''b'') Line = [js ''a'', js ''b'']"
proof -
  have h: "granularity_of (no_options :: rat DiffOptions) = Line \<and> \<not> has_crlf (js ''a'' @ [10] @ js ''b'')"
    by (simp add: js_def)
  have t: "tokenize (js ''a'' @ [10] @ js ''b'') Line = [js ''a'', js ''b'']"
    by (simp add: js_def js_split_def split_loop.simps newline_re_def)
  show ?thesis
    using h t merge_self_diff [of ascii_host "js ''a'' @ [10] @ js ''b''" no_options
        "Map.empty(0 \<mapsto> Reject, 1 \<mapsto> Accept)"]
    by (simp del: tokenize.simps)
qed

section \<open>Word tokens\<close>

lemma ws_runs_uniform:
  assumes "xs \<noteq> []" and "\<And>x. x \<in> set xs \<Longrightarrow> isSpace x = b"
  shows "ws_runs (xs @ ys) =
     (xs @ takeWhile (\<lambda>d. isSpace d = b) ys) # ws_runs (dropWhile (\<lambda>d. isSpace d = b) ys)"
proof -
  obtain c cs where xs: "xs = c # cs"
    using assms(1) by (cases xs) auto
  have c: "isSpace c = b" and cs: "\<And>x. x \<in> set cs \<Longrightarrow> isSpace x = b"
    using assms(2) xs by auto
  have "takeWhile (\<lambda>d. isSpace d = b) (cs @ ys) = cs @ takeWhile (\<lambda>d. isSpace d = b) ys"
    using cs by simp
  moreover have "dropWhile (\<lambda>d. isSpace d = b) (cs @ ys) = dropWhile (\<lambda>d. isSpace d = b) ys"
    using cs by simp
  ultimately show ?thesis
    by (simp add: xs c)
qed

lemma spaces_re_space:
  "isSpace c \<Longrightarrow> spaces_re (c # cs) = Some (length (takeWhile isSpace (c # cs)))"
  by (simp add: spaces_re_def)

lemma spaces_re_word: "\<not> isSpace c \<Longrightarrow> spaces_re (c # cs) = None"
  by (simp add: spaces_re_def)

lemma take_length_takeWhile: "take (length (takeWhile P xs)) xs = takeWhile P xs"
  by (induction xs) simp_all

lemma drop_length_takeWhile: "drop (length (takeWhile P xs)) xs = dropWhile P xs"
  by (induction xs) simp_all

lemma split_words_runs:
  "(\<And>x. x \<in> set cur \<Longrightarrow> \<not> isSpace x)
     \<Longrightarrow> filter (\<lambda>token. length token > 0) (split_loop spaces_re True cur rest)
         = ws_runs (cur @ rest)"
proof (induction rest arbitrary: cur rule: length_induct)
  case (1 rest)
  note IH = "1.IH" and cur = "1.prems"
  have cur_run: "cur \<noteq> [] \<Longrightarrow> ws_runs (cur @ ys) =
      (cur @ takeWhile (\<lambda>d. \<not> isSpace d) ys) # ws_runs (dropWhile (\<lambda>d. \<not> isSpace d) ys)" for ys
    using ws_runs_uniform [of cur False ys] cur by simp
  show ?case
  proof (cases rest)
    case Nil
    show ?thesis
    proof (cases "cur = []")
      case True
      then show ?thesis by (simp add: Nil split_loop.simps)
    next
      case False
      then show ?thesis
        using cur_run [of "[]"] by (simp add: Nil split_loop.simps)
    qed
  next
    case (Cons c cs)
    show ?thesis
    proof (cases "isSpace c")
      case True
      define w where "w = takeWhile isSpace (c # cs)"
      define r where "r = dropWhile isSpace (c # cs)"
      have len: "length r < length rest"
        using True by (simp add: r_def Cons less_Suc_eq_le length_dropWhile_le)
      have w_ne: "w \<noteq> []"
        using True by (simp add: w_def)
      have tail: "filter (\<lambda>token. length token > 0) (split_loop spaces_re True [] r) = ws_runs r"
        using IH [rule_format, OF len, of "[]"] by simp
      have re: "spaces_re (c # cs) = Some (length w)"
        using True by (simp only: w_def spaces_re_space)
      have lw: "length w \<noteq> 0"
        using w_ne by simp
      have "split_loop spaces_re True cur (c # cs)
          = cur # [take (length w) (c # cs)] @ split_loop spaces_re True [] (drop (length w) (c # cs))"
        using lw by (simp add: split_loop.simps re)
      also have "take (length w) (c # cs) = w"
        unfolding w_def by (rule take_length_takeWhile)
      also have "drop (length w) (c # cs) = r"
        unfolding w_def r_def by (rule drop_length_takeWhile)
      finally have split: "split_loop spaces_re True cur rest
          = cur # w # split_loop spaces_re True [] r"
        by (simp add: Cons)
      have runs_rest: "ws_runs (c # cs) = w # ws_runs r"
        using True by (simp add: w_def r_def)
      have runs_all: "ws_runs (cur @ rest) = (if cur = [] then [] else [cur]) @ w # ws_runs r"
      proof (cases "cur = []")
        case True
        then show ?thesis
          using runs_rest by (simp add: Cons del: ws_runs.simps)
      next
        case False
        have "ws_runs (cur @ c # cs) = cur # ws_runs (c # cs)"
          using cur_run [OF False, of "c # cs"] True by simp
        then show ?thesis
          using False runs_rest by (simp add: Cons del: ws_runs.simps)
      qed
      have "filter (\<lambda>token. length token > 0) (split_loop spaces_re True cur rest)
          = (if cur = [] then [] else [cur]) @ w
              # filter (\<lambda>token. length token > 0) (split_loop spaces_re True [] r)"
        using w_ne by (simp add: split)
      then show ?thesis
        by (simp only: tail runs_all)
    next
      case False
      have len: "length cs < length rest"
        by (simp add: Cons)
      have "filter (\<lambda>token. length token > 0) (split_loop spaces_re True (cur @ [c]) cs)
          = ws_runs ((cur @ [c]) @ cs)"
        using IH [rule_format, OF len, of "cur @ [c]"] cur False by auto
      then show ?thesis
        using False by (simp add: Cons split_loop.simps spaces_re_word)
    qed
  qed
qed

lemma tokenize_word_runs: "tokenize T Word = ws_runs T"
proof (cases "T = []")
  case True
  then show ?thesis by (simp add: js_split_def spaces_re_def)
next
  case False
  then show ?thesis
    using split_words_runs [of "[]" T] by (simp add: js_split_def)
qed

text \<open>
  Claim C2, as amended. At word granularity the tokens of a text are its maximal runs of
  white space and of other characters, all of them and in order: a white space run is a
  token of its own. So \<^verbatim>\<open>diff("Hello world", "Hello there", {granularity: 'word'})\<close> yields
  three records: unchanged \<^verbatim>\<open>"Hello"\<close>, unchanged \<^verbatim>\<open>" "\<close>, and modified pairing
  \<^verbatim>\<open>"world"\<close> with \<^verbatim>\<open>"there"\<close>.
\<close>

theorem word_tokens_are_runs:
  "tokenize T Word = ws_runs T
   \<and> diff E (js ''Hello world'') (js ''Hello there'') (with_granularity Word) =
       \<lparr>changes = scenario_A,
        stats = \<lparr>n_added = 0, n_removed = 0, n_modified = 1, n_unchanged = 2\<rparr>\<rparr>"
  by (simp only: tokenize_word_runs hello_world_diff)

text \<open>
  Counterexample to C2 as stated: the tokens of \<^verbatim>\<open>"Hello world"\<close> include the white space
  run, and the change list of scenario A has an unchanged record for it between the record
  of \<^verbatim>\<open>"Hello"\<close> and the modified pair.
\<close>

theorem word_tokens_counterexample:
  "tokenize (js ''Hello world'') Word = [js ''Hello'', js '' '', js ''world'']
   \<and> map (\<lambda>c. (ctype c, original c, modified c))
         (changes (diff ascii_host (js ''Hello world'') (js ''Hello there'')
            (with_granularity Word)))
       = [(Unchanged, Some (js ''Hello''), Some (js ''Hello'')),
          (Unchanged, Some (js '' ''), Some (js '' '')),
          (Modified, Some (js ''world''), Some (js ''there''))]"
  by (simp add: hello_world_tokens hello_world_diff scenario_A_def del: tokenize.simps)

text \<open>Witness of the amended C2: the tokens of \<^verbatim>\<open>" a  b"\<close>.\<close>

theorem word_tokens_are_runs_witness:
  "tokenize (js '' a  b'') Word = [js '' '', js ''a'', js ''  '', js ''b'']
   \<and> changes (diff ascii_host (js ''Hello world'') (js ''Hello there'') (with_granularity Word))
       = scenario_A"
  using word_tokens_are_runs [of "js '' a  b''" ascii_host]
  by (simp add: js_def isSpace_def del: tokenize.simps)

section \<open>The similarity threshold changes the explanation only\<close>

lemma modified_change_threshold:
  "erase_explanation (modified_change E (options\<lparr>similarityThreshold := t\<rparr>) g a b l m)
     = erase_explanation (modified_change E options g a b l m)"
  by (simp add: modified_change_def erase_explanation_def Let_def)

lemma erase_walk_fields:
  "erase_walk s = erase_walk s' \<Longrightarrow>
     pos_i s = pos_i s' \<and> pos_j s = pos_j s' \<and> pos_k s = pos_k s'
     \<and> line_o s = line_o s' \<and> line_m s = line_m s'
     \<and> map erase_explanation (acc s) = map erase_explanation (acc s')"
  by (cases s, cases s') (simp add: erase_walk_def)

lemma erase_walk_eqI:
  "pos_i s = pos_i s' \<Longrightarrow> pos_j s = pos_j s' \<Longrightarrow> pos_k s = pos_k s'
     \<Longrightarrow> line_o s = line_o s' \<Longrightarrow> line_m s = line_m s'
     \<Longrightarrow> map erase_explanation (acc s) = map erase_explanation (acc s')
     \<Longrightarrow> erase_walk s = erase_walk s'"
  by (cases s, cases s') (simp add: erase_walk_def)

lemma diff_step_threshold:
  assumes "erase_walk s = erase_walk s'"
  shows "erase_walk (diff_step E (options\<lparr>similarityThreshold := t\<rparr>) g ts1 ts2 ns1 ns2 common s)
       = erase_walk (diff_step E options g ts1 ts2 ns1 ns2 common s')"
proof -
  note f = erase_walk_fields [OF assms]
  show ?thesis
    by (rule erase_walk_eqI)
       (auto simp: diff_step_def Let_def f modified_change_threshold)
qed

lemma diff_loop_threshold:
  "erase_walk s = erase_walk s' \<Longrightarrow>
     erase_walk (diff_loop E (options\<lparr>similarityThreshold := t\<rparr>) g ts1 ts2 ns1 ns2 common s)
       = erase_walk (diff_loop E options g ts1 ts2 ns1 ns2 common s')"
proof (induction E options g ts1 ts2 ns1 ns2 common s' arbitrary: s rule: diff_loop.induct)
  case (1 E options g ts1 ts2 ns1 ns2 common s')
  note f = erase_walk_fields [OF "1.prems"]
  show ?case
  proof (cases "pos_i s' < length ts1 \<or> pos_j s' < length ts2")
    case True
    then have cond: "pos_i s < length ts1 \<or> pos_j s < length ts2"
      using f by simp
    have "erase_walk (diff_loop E (options\<lparr>similarityThreshold := t\<rparr>) g ts1 ts2 ns1 ns2 common
              (diff_step E (options\<lparr>similarityThreshold := t\<rparr>) g ts1 ts2 ns1 ns2 common s))
        = erase_walk (diff_loop E options g ts1 ts2 ns1 ns2 common
              (diff_step E options g ts1 ts2 ns1 ns2 common s'))"
      using True by (intro "1.IH" diff_step_threshold "1.prems")
    then show ?thesis
      using True cond
      by (subst diff_loop.simps, subst (2) diff_loop.simps) simp
  next
    case False
    then have cond: "\<not> (pos_i s < length ts1 \<or> pos_j s < length ts2)"
      using f by simp
    show ?thesis
      using False cond "1.prems"
      by (subst diff_loop.simps, subst (2) diff_loop.simps) simp
  qed
qed

lemma diff_changes_threshold:
  "map erase_explanation (changes (diff E a b (options\<lparr>similarityThreshold := t\<rparr>)))
     = map erase_explanation (changes (diff E a b options))"
proof -
  let ?s0 = "\<lparr>pos_i = 0, pos_j = 0, pos_k = 0, line_o = 1, line_m = 1, acc = []\<rparr> :: 'a walk"
  have "erase_walk (diff_loop E (options\<lparr>similarityThreshold := t\<rparr>) g ts1 ts2 ns1 ns2 common ?s0)
      = erase_walk (diff_loop E options g ts1 ts2 ns1 ns2 common ?s0)" for g ts1 ts2 ns1 ns2 common
    by (rule diff_loop_threshold) (rule refl)
  then have "map erase_explanation
        (acc (diff_loop E (options\<lparr>similarityThreshold := t\<rparr>) g ts1 ts2 ns1 ns2 common ?s0))
      = map erase_explanation (acc (diff_loop E options g ts1 ts2 ns1 ns2 common ?s0))"
    for g ts1 ts2 ns1 ns2 common
    by (rule erase_walk_fields [THEN conjunct2, THEN conjunct2, THEN conjunct2, THEN conjunct2,
          THEN conjunct2])
  then show ?thesis
    by (simp add: diff_def Let_def)
qed

lemma count_type_erase: "count_type k (map erase_explanation cs) = count_type k cs"
  by (induction cs) (simp_all add: count_type_def erase_explanation_def)

lemma stats_of_erase: "stats_of (map erase_explanation cs) = stats_of cs"
  by (simp add: stats_of_def count_type_erase)

lemma erased_fields:
  assumes "map erase_explanation cs = map erase_explanation cs'"
  shows "map ctype cs = map ctype cs'"
    and "map original cs = map original cs'"
    and "map modified cs = map modified cs'"
    and "map originalLine cs = map originalLine cs'"
    and "map modifiedLine cs = map modifiedLine cs'"
    and "map similarity cs = map similarity cs'"
    and "map keyWords cs = map keyWords cs'"
proof -
  have "map f (map erase_explanation cs) = map f (map erase_explanation cs')" for f :: "'a DiffChange \<Rightarrow> 'b"
    using assms by simp
  then have m: "map (\<lambda>c. f (erase_explanation c)) cs = map (\<lambda>c. f (erase_explanation c)) cs'"
    for f :: "'a DiffChange \<Rightarrow> 'b"
    by (simp add: comp_def)
  show "map ctype cs = map ctype cs'"
    using m [of ctype] by (simp add: erase_explanation_def)
  show "map original cs = map original cs'"
    using m [of original] by (simp add: erase_explanation_def)
  show "map modified cs = map modified cs'"
    using m [of modified] by (simp add: erase_explanation_def)
  show "map originalLine cs = map originalLine cs'"
    using m [of originalLine] by (simp add: erase_explanation_def)
  show "map modifiedLine cs = map modifiedLine cs'"
    using m [of modifiedLine] by (simp add: erase_explanation_def)
  show "map similarity cs = map similarity cs'"
    using m [of similarity] by (simp add: erase_explanation_def)
  show "map keyWords cs = map keyWords cs'"
    using m [of keyWords] by (simp add: erase_explanation_def)
qed

text \<open>
  Claim C7. For every pair of texts and every two options values that differ only in
  \<^verbatim>\<open>similarityThreshold\<close>, the two results of \<open>diff\<close> have the same number of changes,
  and, change by change, the same kind, original and modified text, line numbers,
  similarity score and key words; the statistics are the same. Only the explanation can
  differ: with the explanations erased the two change lists are equal.
\<close>

theorem threshold_changes_explanation_only:
  "map erase_explanation (changes (diff E a b (options\<lparr>similarityThreshold := t\<rparr>)))
     = map erase_explanation (changes (diff E a b options))
   \<and> map ctype (changes (diff E a b (options\<lparr>similarityThreshold := t\<rparr>)))
     = map ctype (changes (diff E a b options))
   \<and> map original (changes (diff E a b (options\<lparr>similarityThreshold := t\<rparr>)))
     = map original (changes (diff E a b options))
   \<and> map modified (changes (diff E a b (options\<lparr>similarityThreshold := t\<rparr>)))
     = map modified (changes (diff E a b options))
   \<and> map originalLine (changes (diff E a b (options\<lparr>similarityThreshold := t\<rparr>)))
     = map originalLine (changes (diff E a b options))
   \<and> map modifiedLine (changes (diff E a b (options\<lparr>similarityThreshold := t\<rparr>)))
     = map modifiedLine (changes (diff E a b options))
   \<and> map similarity (changes (diff E a b (options\<lparr>similarityThreshold := t\<rparr>)))
     = map similarity (changes (diff E a b options))
   \<and> map keyWords (changes (diff E a b (options\<lparr>similarityThreshold := t\<rparr>)))
     = map keyWords (changes (diff E a b options))
   \<and> stats (diff E a b (options\<lparr>similarityThreshold := t\<rparr>)) = stats (diff E a b options)"
proof -
  note e = diff_changes_threshold [where E = E and a = a and b = b and options = options and t = t]
  have "stats_of (changes (diff E a b (options\<lparr>similarityThreshold := t\<rparr>)))
      = stats_of (changes (diff E a b options))"
    using stats_of_erase [of "changes (diff E a b (options\<lparr>similarityThreshold := t\<rparr>))"]
      stats_of_erase [of "changes (diff E a b options)"] e
    by simp
  then have "stats (diff E a b (options\<lparr>similarityThreshold := t\<rparr>)) = stats (diff E a b options)"
    by (simp only: diff_stats)
  then show ?thesis
    using e erased_fields [OF e] by simp
qed

subsection \<open>Scenario C, evaluated\<close>
lemma fox_words:
  "match_words (toLowerCase ascii_host (js ''The quick fox'')) = [js ''the'', js ''quick'', js ''fox'']"
  "match_words (toLowerCase ascii_host (js ''The fast fox'')) = [js ''the'', js ''fast'', js ''fox'']"
  by (simp_all add: ascii_host_def js_def isWordChar_def)

lemma fox_similarity:
  "computeSemanticSimilarity ascii_host (js ''The quick fox'') (js ''The fast fox'') = 163 / 260"
  unfolding computeSemanticSimilarity_def fox_words
  by (simp add: Let_def new_Set_def set_add_def js_def ascii_host_def)

lemma fox_long_words:
  "long_words ascii_host (js ''The quick fox'') = [js ''quick'']"
  "long_words ascii_host (js ''The fast fox'') = [js ''fast'']"
  unfolding long_words_def fox_words
  by (simp_all add: new_Set_def set_add_def js_def)

lemma round_63: "round_str (163 / 260 * 100) = js ''63''"
proof -
  have f: "\<lfloor>(163::rat) / 260 * 100 + 1 / 2\<rfloor> = 63"
    by (rule floor_unique) simp_all
  show ?thesis
    unfolding round_str_def Let_def f
    by (simp add: dec_digits.simps js_def)
qed

lemma fox_reworded:
  "reworded_text ascii_host (163 / 260) [js ''fast''] [js ''quick'']
     = js ''Reworded with 63% similarity. Key changes: added '' @ [34] @ js ''fast'' @ [34]
         @ js '' removed '' @ [34] @ js ''quick'' @ [34]"
proof -
  have "n_round_str ascii_host (n_mul ascii_host (163 / 260) (lit ascii_host 100)) = js ''63''"
    using round_63 by (simp add: ascii_host_def)
  then show ?thesis
    unfolding reworded_text_def
    by (simp add: trim_def js_def isSpace_def)
qed

lemma fox_modified:
  "modified_change ascii_host (fox_options t) Line (js ''The quick fox'') (js ''The fast fox'') 1 1 =
     \<lparr>ctype = Modified, original = Some (js ''The quick fox''),
      modified = Some (js ''The fast fox''), originalLine = Some 1, modifiedLine = Some 1,
      similarity = Some (163 / 260),
      explanation = Some (if n_gt ascii_host (163 / 260) (threshold_of ascii_host (fox_options t))
         then reworded_text ascii_host (163 / 260) [js ''fast''] [js ''quick'']
         else significantly_text [js ''fast'']),
      keyWords = Some \<lparr>kw_added = [js ''fast''], kw_removed = [js ''quick'']\<rparr>\<rparr>"
  unfolding modified_change_def fox_similarity fox_long_words
  by (simp add: fox_options_def no_options_def line_no_def js_def Let_def)

lemma fox_tokens:
  "tokenize (js ''The quick fox'') Line = [js ''The quick fox'']"
  "tokenize (js ''The fast fox'') Line = [js ''The fast fox'']"
  by (simp_all add: js_def js_split_def split_loop.simps newline_re_def)

lemma fox_lcs: "lcs [js ''The quick fox''] [js ''The fast fox''] = []"
  by (simp add: lcs_def lcs_table_def backtrack.simps backtrack_step_def js_def)

lemma fox_loop:
  "acc (diff_loop ascii_host (fox_options t) Line [js ''The quick fox''] [js ''The fast fox'']
         [js ''The quick fox''] [js ''The fast fox''] []
         \<lparr>pos_i = 0, pos_j = 0, pos_k = 0, line_o = 1, line_m = 1, acc = []\<rparr>)
     = [modified_change ascii_host (fox_options t) Line (js ''The quick fox'') (js ''The fast fox'') 1 1]"
  by (simp add: diff_loop.simps diff_step_def Let_def next_line_def)

lemma fox_changes:
  "changes (diff ascii_host (js ''The quick fox'') (js ''The fast fox'') (fox_options t))
     = [modified_change ascii_host (fox_options t) Line (js ''The quick fox'') (js ''The fast fox'') 1 1]"
proof -
  have "diff ascii_host (js ''The quick fox'') (js ''The fast fox'') (fox_options t) =
      \<lparr>changes = [modified_change ascii_host (fox_options t) Line (js ''The quick fox'')
                     (js ''The fast fox'') 1 1],
       stats = stats_of [modified_change ascii_host (fox_options t) Line (js ''The quick fox'')
                     (js ''The fast fox'') 1 1]\<rparr>"
  proof (rule diff_stages)
    show "(case granularity (fox_options t) of None \<Rightarrow> Line | Some v \<Rightarrow> v) = Line"
      by (simp add: fox_options_def no_options_def)
    show "\<lparr>granularity = Some Line,
           ignoreWhitespace =
             Some (case ignoreWhitespace (fox_options t) of None \<Rightarrow> False | Some v \<Rightarrow> v),
           ignoreCase = Some (case ignoreCase (fox_options t) of None \<Rightarrow> False | Some v \<Rightarrow> v),
           semanticAnalysis = None, similarityThreshold = None\<rparr> =
         \<lparr>granularity = Some Line, ignoreWhitespace = Some False, ignoreCase = Some False,
           semanticAnalysis = None, similarityThreshold = None\<rparr>"
      by (simp add: fox_options_def no_options_def)
    show "tokenize (js ''The quick fox'') Line = [js ''The quick fox'']"
      by (rule fox_tokens)
    show "tokenize (js ''The fast fox'') Line = [js ''The fast fox'']"
      by (rule fox_tokens)
    show "map (\<lambda>t. normalize ascii_host t
              \<lparr>granularity = Some Line, ignoreWhitespace = Some False, ignoreCase = Some False,
                semanticAnalysis = None, similarityThreshold = None\<rparr>)
            [js ''The quick fox''] = [js ''The quick fox'']"
      by (simp add: normalize_plain)
    show "map (\<lambda>t. normalize ascii_host t
              \<lparr>granularity = Some Line, ignoreWhitespace = Some False, ignoreCase = Some False,
                semanticAnalysis = None, similarityThreshold = None\<rparr>)
            [js ''The fast fox''] = [js ''The fast fox'']"
      by (simp add: normalize_plain)
    show "lcs [js ''The quick fox''] [js ''The fast fox''] = []"
      by (rule fox_lcs)
    show "acc (diff_loop ascii_host (fox_options t) Line [js ''The quick fox'']
            [js ''The fast fox''] [js ''The quick fox''] [js ''The fast fox''] []
            \<lparr>pos_i = 0, pos_j = 0, pos_k = 0, line_o = 1, line_m = 1, acc = []\<rparr>)
        = [modified_change ascii_host (fox_options t) Line (js ''The quick fox'')
             (js ''The fast fox'') 1 1]"
      by (rule fox_loop)
  qed
  then show ?thesis by simp
qed

lemma fox_options_update: "(fox_options t)\<lparr>similarityThreshold := t'\<rparr> = fox_options t'"
  by (simp add: fox_options_def)

lemma fox_explanation_default:
  "map explanation (changes (diff ascii_host (js ''The quick fox'') (js ''The fast fox'')
      (fox_options None)))
     = [Some (js ''Reworded with 63% similarity. Key changes: added '' @ [34] @ js ''fast''
          @ [34] @ js '' removed '' @ [34] @ js ''quick'' @ [34])]"
  unfolding fox_changes fox_modified fox_reworded
  by (simp add: threshold_of_def fox_options_def no_options_def ascii_host_def)

lemma fox_explanation_high:
  "map explanation (changes (diff ascii_host (js ''The quick fox'') (js ''The fast fox'')
      (fox_options (Some (9 / 10)))))
     = [Some (js ''Significantly modified. New focus: fast'')]"
  unfolding fox_changes fox_modified
  by (simp add: threshold_of_def fox_options_def no_options_def ascii_host_def
        significantly_text_def js_def)

lemma fox_similarity_field:
  "map similarity (changes (diff ascii_host (js ''The quick fox'') (js ''The fast fox'')
      (fox_options t))) = [Some (163 / 260)]"
  unfolding fox_changes fox_modified by simp

text \<open>
  Witness of C7: scenario C with the default threshold and with threshold 0.9. The
  explanation goes from the reworded message to the significantly modified one; the
  similarity stays 163/260 and the statistics stay the same.
\<close>

theorem threshold_changes_explanation_only_witness:
  "map explanation (changes (diff ascii_host (js ''The quick fox'') (js ''The fast fox'')
      (fox_options None)))
     = [Some (js ''Reworded with 63% similarity. Key changes: added '' @ [34] @ js ''fast''
          @ [34] @ js '' removed '' @ [34] @ js ''quick'' @ [34])]
   \<and> map explanation (changes (diff ascii_host (js ''The quick fox'') (js ''The fast fox'')
      ((fox_options None)\<lparr>similarityThreshold := Some (9 / 10)\<rparr>)))
     = [Some (js ''Significantly modified. New focus: fast'')]
   \<and> map similarity (changes (diff ascii_host (js ''The quick fox'') (js ''The fast fox'')
      ((fox_options None)\<lparr>similarityThreshold := Some (9 / 10)\<rparr>)))
     = map similarity (changes (diff ascii_host (js ''The quick fox'') (js ''The fast fox'')
      (fox_options None)))
   \<and> map similarity (changes (diff ascii_host (js ''The quick fox'') (js ''The fast fox'')
      (fox_options None))) = [Some (163 / 260)]
   \<and> stats (diff ascii_host (js ''The quick fox'') (js ''The fast fox'')
      ((fox_options None)\<lparr>similarityThreshold := Some (9 / 10)\<rparr>))
     = stats (diff ascii_host (js ''The quick fox'') (js ''The fast fox'') (fox_options None))"
  using threshold_changes_explanation_only [where E = ascii_host and a = "js ''The quick fox''"
      and b = "js ''The fast fox''" and options = "fox_options None" and t = "Some (9 / 10)"]
  by (simp only: fox_explanation_default fox_explanation_high fox_similarity_field
        fox_options_update simp_thms)

section \<open>The similarity score\<close>

lemma set_foldl_set_add: "set (foldl set_add s xs) = set s \<union> set xs"
  by (induction xs arbitrary: s) (auto simp: set_add_def)

lemma distinct_foldl_set_add: "distinct s \<Longrightarrow> distinct (foldl set_add s xs)"
  by (induction xs arbitrary: s) (auto simp: set_add_def)

lemma set_new_Set: "set (new_Set xs) = set xs"
  by (simp add: new_Set_def set_foldl_set_add)

lemma length_new_Set: "length (new_Set xs) = card (set xs)"
proof -
  have "distinct (new_Set xs)"
    by (simp add: new_Set_def distinct_foldl_set_add)
  then have "card (set (new_Set xs)) = length (new_Set xs)"
    by (rule distinct_card)
  then show ?thesis
    by (simp add: set_new_Set)
qed

lemma new_Set_empty: "length (new_Set xs) = 0 \<longleftrightarrow> set xs = {}"
  by (simp add: length_new_Set)

lemma match_words_chars:
  "w \<in> set (match_words s) \<Longrightarrow> w \<noteq> [] \<and> (\<forall>c \<in> set w. isWordChar c)"
proof (induction s rule: match_words.induct)
  case 1
  then show ?case by simp
next
  case (2 c cs)
  show ?case
  proof (cases "isWordChar c")
    case True
    then have "w = c # takeWhile isWordChar cs \<or> w \<in> set (match_words (dropWhile isWordChar cs))"
      using "2.prems" by simp
    then show ?thesis
    proof
      assume w: "w = c # takeWhile isWordChar cs"
      have "\<forall>x \<in> set (takeWhile isWordChar cs). isWordChar x"
        by (blast dest: set_takeWhileD)
      then show ?thesis
        using True w by simp
    next
      assume "w \<in> set (match_words (dropWhile isWordChar cs))"
      then show ?thesis
        using True by (rule "2.IH"(1) [rotated])
    qed
  next
    case False
    then have "w \<in> set (match_words cs)"
      using "2.prems" by simp
    then show ?thesis
      using False by (rule "2.IH"(2) [rotated])
  qed
qed

lemma no_words_similarity:
  "computeSemanticSimilarity ascii_host (js ''?!'') (js '''') = 1"
  "computeSemanticSimilarity ascii_host (js ''?!'') (js ''a'') = 0"
  by (simp_all add: computeSemanticSimilarity_def Let_def new_Set_def set_add_def js_def
        ascii_host_def isWordChar_def)

lemma isWordChar_alnum: "isWordChar = (\<lambda>c. isAlnum c \<or> c = 95)"
  by (rule ext) (auto simp: isWordChar_def isAlnum_def)

lemma runs_loop_match_words:
  "runs_loop isWordChar cur s =
     (if cur = [] then match_words s
      else (cur @ takeWhile isWordChar s) # match_words (dropWhile isWordChar s))"
proof (induction s arbitrary: cur)
  case Nil
  show ?case by simp
next
  case (Cons c cs)
  show ?case
  proof (cases "isWordChar c")
    case True
    have "runs_loop isWordChar cur (c # cs) = runs_loop isWordChar (cur @ [c]) cs"
      using True by simp
    also have "\<dots> = ((cur @ [c]) @ takeWhile isWordChar cs)
        # match_words (dropWhile isWordChar cs)"
      by (simp add: Cons.IH)
    finally show ?thesis
      using True by simp
  next
    case False
    have "runs_loop isWordChar cur (c # cs)
        = (if cur = [] then [] else [cur]) @ runs_loop isWordChar [] cs"
      using False by simp
    also have "runs_loop isWordChar [] cs = match_words cs"
      by (simp add: Cons.IH)
    finally show ?thesis
      using False by simp
  qed
qed

lemma match_words_runs: "match_words s = char_runs (\<lambda>c. isAlnum c \<or> c = 95) s"
  using runs_loop_match_words [of "[]" s]
  by (simp add: char_runs_def isWordChar_alnum)

text \<open>
  Claim C8, as amended. For every two strings, \<open>computeSemanticSimilarity\<close> is 1 when both
  word sets are empty, 0 when exactly one is empty, and otherwise
  0.7 \<times> |intersection| / |union| of the word sets plus
  0.3 \<times> min(len a, len b) / max(len a, len b), where the word set of a string is the set of
  the maximal runs of ASCII letters, digits and underscores of the lower-cased string: an
  underscore is part of a word, and any other character, a letter outside ASCII included,
  ends it.
\<close>

theorem computeSemanticSimilarity_formula:
  "computeSemanticSimilarity E a b = similarity_formula E a b"
proof -
  let ?w1 = "match_words (toLowerCase E a)" and ?w2 = "match_words (toLowerCase E b)"
  have inter: "length (new_Set (filter (\<lambda>w. w \<in> set (new_Set ?w2)) (new_Set ?w1)))
      = card (set ?w1 \<inter> set ?w2)"
  proof -
    have "set (filter (\<lambda>w. w \<in> set (new_Set ?w2)) (new_Set ?w1)) = set ?w1 \<inter> set ?w2"
      by (auto simp: set_new_Set)
    then show ?thesis
      by (simp only: length_new_Set)
  qed
  have union: "length (new_Set (new_Set ?w1 @ new_Set ?w2)) = card (set ?w1 \<union> set ?w2)"
    by (simp add: length_new_Set set_new_Set)
  have "computeSemanticSimilarity E a b
      = weighted_similarity E (set ?w1) (set ?w2) (length a) (length b)"
    unfolding computeSemanticSimilarity_def weighted_similarity_def Let_def
      inter union new_Set_empty
    by simp
  then show ?thesis
    by (simp only: similarity_formula_def match_words_runs)
qed

lemma foo_bar_code:
  "computeSemanticSimilarity ascii_host (js ''foo_bar'') (js ''foo bar'') = 3 / 10"
  by (simp add: computeSemanticSimilarity_def Let_def new_Set_def set_add_def js_def
        ascii_host_def isWordChar_def)

lemma foo_bar_runs:
  "char_runs isAlnum (toLowerCase ascii_host (js ''foo_bar'')) = [js ''foo'', js ''bar'']"
  "char_runs isAlnum (toLowerCase ascii_host (js ''foo bar'')) = [js ''foo'', js ''bar'']"
  "char_runs (\<lambda>c. isAlnum c \<or> c = 95) (toLowerCase ascii_host (js ''foo_bar'')) = [js ''foo_bar'']"
  "char_runs (\<lambda>c. isAlnum c \<or> c = 95) (toLowerCase ascii_host (js ''foo bar''))
     = [js ''foo'', js ''bar'']"
  by (simp_all add: char_runs_def isAlnum_def ascii_host_def js_def)

lemma foo_bar_claimed:
  "claimed_similarity ascii_host (js ''foo_bar'') (js ''foo bar'') = 1"
  unfolding claimed_similarity_def foo_bar_runs
  by (simp add: weighted_similarity_def js_def ascii_host_def)

text \<open>
  Counterexample to C8 as stated: for \<^verbatim>\<open>"foo_bar"\<close> and \<^verbatim>\<open>"foo bar"\<close> the alphanumeric runs
  are \<open>foo\<close> and \<open>bar\<close> on both sides, so the formula of the claim gives
  0.7 \<times> 2/2 + 0.3 \<times> 7/7 = 1. The code takes \<open>foo_bar\<close> as one word, shares no word
  with the other side, and returns 0.7 \<times> 0/3 + 0.3 \<times> 7/7 = 0.3.
\<close>

theorem computeSemanticSimilarity_counterexample:
  "computeSemanticSimilarity ascii_host (js ''foo_bar'') (js ''foo bar'') = 3 / 10
   \<and> claimed_similarity ascii_host (js ''foo_bar'') (js ''foo bar'') = 1
   \<and> computeSemanticSimilarity ascii_host (js ''foo_bar'') (js ''foo bar'')
       \<noteq> claimed_similarity ascii_host (js ''foo_bar'') (js ''foo bar'')"
  by (simp add: foo_bar_code foo_bar_claimed)

text \<open>
  Witness of the amended C8: scenario C (word sets of three words each, two shared, lengths
  13 and 12), the pair of the counterexample, a pair without words, and a pair where one
  text has no word.
\<close>

theorem computeSemanticSimilarity_formula_witness:
  "similarity_formula ascii_host (js ''The quick fox'') (js ''The fast fox'')
     = 2 / 4 * (7 / 10) + 12 / 13 * (3 / 10)
   \<and> similarity_formula ascii_host (js ''foo_bar'') (js ''foo bar'') = 0 / 3 * (7 / 10) + 7 / 7 * (3 / 10)
   \<and> similarity_formula ascii_host (js ''?!'') (js '''') = 1
   \<and> similarity_formula ascii_host (js ''?!'') (js ''a'') = 0"
  using computeSemanticSimilarity_formula [of ascii_host "js ''The quick fox''" "js ''The fast fox''"]
    computeSemanticSimilarity_formula [of ascii_host "js ''foo_bar''" "js ''foo bar''"]
    computeSemanticSimilarity_formula [of ascii_host "js ''?!''" "js ''''"]
    computeSemanticSimilarity_formula [of ascii_host "js ''?!''" "js ''a''"]
  by (simp add: fox_similarity no_words_similarity foo_bar_code)

end
